theory Spec2Isabelle
  imports Complex_Main
begin

section \<open>Numbers and dates\<close>

text \<open>
  A JavaScript Number that holds a finite value is modelled as an exact rational: rounding
  of IEEE doubles is idealised away. A Number expression whose value is not finite
  (a division by zero gives Infinity or NaN) is modelled by \<open>None\<close>.

  A Date is its time value: milliseconds since the epoch, read in the local time zone, which
  is taken to have a fixed offset (Asia/Kolkata, the zone the cron job is scheduled in, has
  no daylight saving). In such a zone \<^verbatim>\<open>d.setDate(d.getDate() + k)\<close> adds
  \<open>k\<close> whole days and \<^verbatim>\<open>d.setHours(0, 0, 0, 0)\<close> goes back to the start
  of the local day.
\<close>

type_synonym Number = rat
type_synonym Date = int

definition msPerDay :: int where
  "msPerDay = 24 * 60 * 60 * 1000"

definition addDays :: "Date \<Rightarrow> int \<Rightarrow> Date" where
  "addDays d k = d + k * msPerDay"

definition startOfDay :: "Date \<Rightarrow> Date" where
  "startOfDay d = d - d mod msPerDay"

text \<open>\<^verbatim>\<open>Math.ceil\<close> and \<^verbatim>\<open>Math.round\<close> (half up) on finite values.\<close>

definition Math_ceil :: "Number \<Rightarrow> Number" where
  "Math_ceil x = of_int \<lceil>x\<rceil>"

definition Math_round :: "Number \<Rightarrow> Number" where
  "Math_round x = of_int \<lfloor>x + 1 / 2\<rfloor>"

section \<open>EMI plan (model/emiPlan.js)\<close>

text \<open>
  The fields of the plan schema that the calculator and the apply route read. The tenure is
  a number of months, a natural number here.
\<close>

record EmiPlan =
  tenure :: nat
  interestRate :: Number
  processingFee :: Number
  minOrderAmount :: Number
  maxOrderAmount :: "Number option"

text \<open>
  \<^verbatim>\<open>calculateEMI(principal)\<close>: with \<open>R = interestRate / 12 / 100\<close>, the no-cost
  branch \<open>R === 0\<close> returns \<open>Math.ceil(P / N)\<close>, the other branch the annuity formula.
  A zero divisor makes the JavaScript result non-finite: \<open>None\<close>.
\<close>

definition calculateEMI :: "EmiPlan \<Rightarrow> Number \<Rightarrow> Number option" where
  "calculateEMI plan principalAmount =
     (let P = principalAmount;
          R = interestRate plan / 12 / 100;
          N = tenure plan
      in if R = 0 then
           (if N = 0 then None else Some (Math_ceil (P / of_nat N)))
         else if (1 + R) ^ N - 1 = 0 then None
         else Some (Math_ceil (P * R * (1 + R) ^ N / ((1 + R) ^ N - 1))))"

section \<open>Calendar fields of a Date (ECMA-262, 21.4.1)\<close>

text \<open>
  \<^verbatim>\<open>generateSchedule\<close> uses \<^verbatim>\<open>getMonth\<close>, \<^verbatim>\<open>setMonth\<close> and
  \<^verbatim>\<open>setDate\<close>. They are modelled after the language standard: the day number and the
  time within the day, the year, month (0 to 11) and day of the month of a time value, and
  \<open>MakeDay\<close>, which accepts a month or a day outside its range and carries the excess over.
\<close>

definition Day :: "Date \<Rightarrow> int" where
  "Day t = t div msPerDay"

definition TimeWithinDay :: "Date \<Rightarrow> int" where
  "TimeWithinDay t = t mod msPerDay"

definition InLeapYear :: "int \<Rightarrow> bool" where
  "InLeapYear y = (y mod 4 = 0 \<and> (y mod 100 \<noteq> 0 \<or> y mod 400 = 0))"

definition DayFromYear :: "int \<Rightarrow> int" where
  "DayFromYear y =
     365 * (y - 1970) + (y - 1969) div 4 - (y - 1901) div 100 + (y - 1601) div 400"

text \<open>
  The year of a day number is the largest \<open>y\<close> with \<open>DayFromYear y \<le> day\<close>; it is one of
  the three years around the estimate that the mean length of a year gives.
\<close>

definition YearFromDay :: "int \<Rightarrow> int" where
  "YearFromDay day =
     (let y0 = 1970 + (day * 400) div 146097
      in if DayFromYear (y0 + 1) \<le> day then y0 + 1
         else if DayFromYear y0 \<le> day then y0
         else y0 - 1)"

text \<open>The number of days of the year that precede month \<open>m\<close> (0 is January).\<close>

definition daysBeforeMonth :: "bool \<Rightarrow> int \<Rightarrow> int" where
  "daysBeforeMonth leap m =
     (let l = (if leap then 1 else 0)
      in if m = 0 then 0 else if m = 1 then 31 else if m = 2 then 59 + l
         else if m = 3 then 90 + l else if m = 4 then 120 + l else if m = 5 then 151 + l
         else if m = 6 then 181 + l else if m = 7 then 212 + l else if m = 8 then 243 + l
         else if m = 9 then 273 + l else if m = 10 then 304 + l else 334 + l)"

definition MonthFromDay :: "int \<Rightarrow> int" where
  "MonthFromDay day =
     (let y = YearFromDay day; leap = InLeapYear y; dwy = day - DayFromYear y
      in if dwy < daysBeforeMonth leap 1 then 0 else if dwy < daysBeforeMonth leap 2 then 1
         else if dwy < daysBeforeMonth leap 3 then 2 else if dwy < daysBeforeMonth leap 4 then 3
         else if dwy < daysBeforeMonth leap 5 then 4 else if dwy < daysBeforeMonth leap 6 then 5
         else if dwy < daysBeforeMonth leap 7 then 6 else if dwy < daysBeforeMonth leap 8 then 7
         else if dwy < daysBeforeMonth leap 9 then 8 else if dwy < daysBeforeMonth leap 10 then 9
         else if dwy < daysBeforeMonth leap 11 then 10 else 11)"

definition DateFromDay :: "int \<Rightarrow> int" where
  "DateFromDay day =
     (let y = YearFromDay day
      in day - DayFromYear y - daysBeforeMonth (InLeapYear y) (MonthFromDay day) + 1)"

definition MakeDay :: "int \<Rightarrow> int \<Rightarrow> int \<Rightarrow> int" where
  "MakeDay year month date =
     (let ym = year + month div 12; mn = month mod 12
      in DayFromYear ym + daysBeforeMonth (InLeapYear ym) mn + date - 1)"

definition MakeDate :: "int \<Rightarrow> int \<Rightarrow> Date" where
  "MakeDate day time = day * msPerDay + time"

definition getFullYear :: "Date \<Rightarrow> int" where
  "getFullYear t = YearFromDay (Day t)"

definition getMonth :: "Date \<Rightarrow> int" where
  "getMonth t = MonthFromDay (Day t)"

definition getDate :: "Date \<Rightarrow> int" where
  "getDate t = DateFromDay (Day t)"

definition setMonth :: "Date \<Rightarrow> int \<Rightarrow> Date" where
  "setMonth t month = MakeDate (MakeDay (getFullYear t) month (getDate t)) (TimeWithinDay t)"

definition setDate :: "Date \<Rightarrow> int \<Rightarrow> Date" where
  "setDate t date = MakeDate (MakeDay (getFullYear t) (getMonth t) date) (TimeWithinDay t)"

text \<open>A calendar date at a time of day, for writing examples: month 1 is January.\<close>

definition civil :: "int \<Rightarrow> int \<Rightarrow> int \<Rightarrow> int \<Rightarrow> Date" where
  "civil y m d time = MakeDate (MakeDay y (m - 1) d) time"

definition hours :: "int \<Rightarrow> int" where
  "hours h = h * 60 * 60 * 1000"

section \<open>EMI application (model/emiApplication.js)\<close>

datatype InstallmentStatus = IPending | IPaid | IOverdue | IFailed

record Installment =
  installmentNumber :: nat
  i_dueDate :: Date
  amount :: Number
  i_status :: InstallmentStatus
  i_paidDate :: "Date option"
  transactionId :: "string option"
  paymentMethod :: "string option"

text \<open>
  The six values of the status enum of the schema. \<open>Cancelled\<close> is not among them: it is
  the value that the refund route of routes/merchant.js assigns.
\<close>

datatype ApplicationStatus =
  APending | Approved | Rejected | Active | Completed | Defaulted | Cancelled

record EmiApplication =
  aid :: nat
  a_userId :: nat
  orderId :: nat
  emiPlanId :: nat
  principalAmount :: Number
  totalInterest :: Number
  a_processingFee :: Number
  totalAmount :: Number
  a_tenure :: nat
  monthlyEmi :: Number
  a_status :: ApplicationStatus
  installments :: "Installment list"
  paidInstallments :: int
  remainingInstallments :: int
  nextDueDate :: "Date option"
  approvedAt :: "Date option"
  completedAt :: "Date option"

datatype error = TypeError | SaveError | UpdateError

text \<open>
  \<^verbatim>\<open>generateSchedule()\<close>, with \<open>startDate\<close> the value of \<^verbatim>\<open>new Date()\<close>. The loop
  runs \<open>i\<close> from 1 to the tenure. The three assignments follow; the last one reads
  \<^verbatim>\<open>installments[0].dueDate\<close>, which throws a TypeError when the list is empty, after the
  first two assignments have been made. The result is the error thrown, if any, and the
  application object as the call leaves it.
\<close>

definition scheduledInstallment :: "Date \<Rightarrow> Number \<Rightarrow> nat \<Rightarrow> Installment" where
  "scheduledInstallment startDate emi i =
     \<lparr>installmentNumber = i,
      i_dueDate = setDate (setMonth startDate (getMonth startDate + int i)) 5,
      amount = emi,
      i_status = IPending,
      i_paidDate = None, transactionId = None, paymentMethod = None\<rparr>"

definition generateSchedule :: "Date \<Rightarrow> EmiApplication \<Rightarrow> error option \<times> EmiApplication" where
  "generateSchedule startDate this =
     (let insts = map (scheduledInstallment startDate (monthlyEmi this)) [1..<Suc (a_tenure this)];
          this1 = this\<lparr>installments := insts, remainingInstallments := int (a_tenure this)\<rparr>
      in case insts of
           [] \<Rightarrow> (Some TypeError, this1)
         | first # _ \<Rightarrow> (None, this1\<lparr>nextDueDate := Some (i_dueDate first)\<rparr>))"

section \<open>Penalty ledger (model/penaltyLedger.js)\<close>

datatype LedgerStatus = LPending | GracePeriod | Overdue | Paid | Waived

datatype NotificationType =
  Reminder3Days | DueToday | PaymentFailed | Overdue1Day | OverdueGraceEnded | PenaltyApplied

datatype Channel = Push | Sms | Email | Whatsapp

datatype DeliveryStatus = Sent | Delivered | Failed

record LedgerNotification =
  n_type :: NotificationType
  sentAt :: Date
  channel :: Channel
  n_status :: DeliveryStatus

text \<open>
  The fields of the ledger schema, without the waiver details. \<open>totalPayable\<close> has no
  default in the schema: it is undefined (\<open>None\<close>) until a penalty is computed.
\<close>

record PenaltyLedger =
  lid :: nat
  emiApplicationId :: nat
  l_userId :: nat
  installmentNo :: int
  originalAmount :: Number
  l_dueDate :: Date
  missedDate :: "Date option"
  penaltyRate :: Number
  daysOverdue :: int
  penaltyAmount :: Number
  totalPayable :: "Number option"
  gracePeriodDays :: int
  isInGracePeriod :: bool
  l_status :: LedgerStatus
  paidAmount :: "Number option"
  l_paidDate :: "Date option"
  paymentReference :: "string option"
  notifications :: "LedgerNotification list"

text \<open>
  \<^verbatim>\<open>calculatePenalty()\<close>, with \<open>now\<close> the value of \<^verbatim>\<open>new Date()\<close>. The callers
  ignore the number it returns; the model returns the entry as the call leaves it.
\<close>

definition calculatePenalty :: "Date \<Rightarrow> PenaltyLedger \<Rightarrow> PenaltyLedger" where
  "calculatePenalty now this =
     (if l_status this = Paid \<or> l_status this = Waived then this
      else
        let gracePeriodEnd = addDays (l_dueDate this) (gracePeriodDays this)
        in if now \<le> gracePeriodEnd then
             this\<lparr>isInGracePeriod := True, daysOverdue := 0, penaltyAmount := 0\<rparr>
           else
             let days = (now - gracePeriodEnd) div msPerDay;
                 penalty = Math_round (originalAmount this * (penaltyRate this / 100) * of_int days)
             in this\<lparr>isInGracePeriod := False, daysOverdue := days, penaltyAmount := penalty,
                      totalPayable := Some (originalAmount this + penalty)\<rparr>)"

definition hasNotification :: "NotificationType \<Rightarrow> PenaltyLedger \<Rightarrow> bool" where
  "hasNotification T ledger = (\<exists>n \<in> set (notifications ledger). n_type n = T)"

definition pushNotification :: "NotificationType \<Rightarrow> Date \<Rightarrow> PenaltyLedger \<Rightarrow> PenaltyLedger" where
  "pushNotification T now ledger =
     ledger\<lparr>notifications := notifications ledger @
        [\<lparr>n_type = T, sentAt = now, channel = Push, n_status = Sent\<rparr>]\<rparr>"

section \<open>The stored collections and the environment\<close>

text \<open>
  The state is the three collections the code reads and writes: the applications, the ledger
  entries, and the Notification records that \<^verbatim>\<open>sendNotification\<close> stores (the user
  and the template). The environment says which remote calls succeed: the save of a
  Notification record, the save of a ledger entry (by its id), and the update of an
  application (by its id).

  An asynchronous function returns the error it throws, if any, and the state it leaves.
\<close>

record DB =
  applications :: "EmiApplication list"
  ledgers :: "PenaltyLedger list"
  notifs :: "(nat \<times> NotificationType) list"

record Env =
  sinkOk :: "nat \<Rightarrow> NotificationType \<Rightarrow> bool"
  saveOk :: "nat \<Rightarrow> bool"
  updateOk :: "nat \<Rightarrow> bool"

type_synonym outcome = "error option \<times> DB"

text \<open>
  \<^verbatim>\<open>doc.save()\<close>: a stored document with the same id is replaced, a new one is added.
\<close>

definition saveLedger :: "PenaltyLedger \<Rightarrow> PenaltyLedger list \<Rightarrow> PenaltyLedger list" where
  "saveLedger l ls =
     (if lid l \<in> lid ` set ls then map (\<lambda>x. if lid x = lid l then l else x) ls else ls @ [l])"

definition saveApplication :: "EmiApplication \<Rightarrow> EmiApplication list \<Rightarrow> EmiApplication list" where
  "saveApplication a as =
     (if aid a \<in> aid ` set as then map (\<lambda>x. if aid x = aid a then a else x) as else as @ [a])"

text \<open>The id of a new ledger entry: one that no stored entry has.\<close>

definition freshLid :: "PenaltyLedger list \<Rightarrow> nat" where
  "freshLid ls = Suc (fold max (map lid ls) 0)"

section \<open>The routes (routes/emi.js)\<close>

datatype VerificationStatus = VPending | UnderReview | Verified | VRejected

record UserKyc =
  verificationStatus :: VerificationStatus
  creditLimit :: Number

text \<open>The body of an apply request. It names a plan; it carries no tenure.\<close>

record ApplyRequest =
  r_orderId :: nat
  r_emiPlanId :: nat
  r_principalAmount :: Number

text \<open>
  \<^verbatim>\<open>POST /apply\<close>. \<open>kyc\<close> and \<open>plan\<close> are the results of the two queries
  (\<^verbatim>\<open>UserKyc.findOne\<close>, \<^verbatim>\<open>EmiPlan.findById\<close>), \<open>newId\<close> the id of the new
  document, \<open>now\<close> the clock. The result is the HTTP status and the state. An error thrown
  in the handler (the TypeError of \<^verbatim>\<open>generateSchedule\<close>) is answered with status 500 by
  the error handler of index.js. Status 0 stands for a request whose monthly payment is not
  a finite number, which the model of numbers does not cover. \<open>newApplication\<close> is the
  document that \<^verbatim>\<open>new EmiApplication({...})\<close> builds, with the defaults of the schema.
\<close>

definition newApplication :: "nat \<Rightarrow> nat \<Rightarrow> ApplyRequest \<Rightarrow> EmiPlan \<Rightarrow> Number \<Rightarrow> EmiApplication" where
  "newApplication newId userId req plan emi =
     (let totalAmt = emi * of_nat (tenure plan);
          interest = totalAmt - r_principalAmount req
      in \<lparr>aid = newId, a_userId = userId, orderId = r_orderId req,
          emiPlanId = r_emiPlanId req,
          principalAmount = r_principalAmount req,
          totalInterest = interest,
          a_processingFee = processingFee plan,
          totalAmount = totalAmt + processingFee plan,
          a_tenure = tenure plan,
          monthlyEmi = emi,
          a_status = Approved,
          installments = [], paidInstallments = 0,
          remainingInstallments = 0, nextDueDate = None,
          approvedAt = None, completedAt = None\<rparr>)"

definition applyEmi ::
  "Date \<Rightarrow> nat \<Rightarrow> nat \<Rightarrow> UserKyc option \<Rightarrow> EmiPlan option \<Rightarrow> ApplyRequest \<Rightarrow> DB \<Rightarrow> nat \<times> DB" where
  "applyEmi now newId userId kyc plan req db =
     (case kyc of
        None \<Rightarrow> (400, db)
      | Some k \<Rightarrow>
          if verificationStatus k \<noteq> Verified then (400, db)
          else if r_principalAmount req > creditLimit k then (400, db)
          else
            (case plan of
               None \<Rightarrow> (404, db)
             | Some p \<Rightarrow>
                 (case calculateEMI p (r_principalAmount req) of
                    None \<Rightarrow> (if tenure p = 0 then (500, db) else (0, db))
                  | Some emi \<Rightarrow>
                      (case generateSchedule now (newApplication newId userId req p emi) of
                         (Some e, _) \<Rightarrow> (500, db)
                       | (None, application) \<Rightarrow>
                           (201, db\<lparr>applications :=
                              saveApplication (application\<lparr>approvedAt := Some now\<rparr>)
                                (applications db)\<rparr>)))))"

text \<open>Assignment to the first element of a list that satisfies a test.\<close>

fun updateFirst :: "('a \<Rightarrow> bool) \<Rightarrow> ('a \<Rightarrow> 'a) \<Rightarrow> 'a list \<Rightarrow> 'a list" where
  "updateFirst P f [] = []"
| "updateFirst P f (x # xs) = (if P x then f x # xs else x # updateFirst P f xs)"

text \<open>
  \<^verbatim>\<open>POST /pay/:applicationId/:installmentNumber\<close>. The handler reads and writes the
  application only. A path parameter that is not a number finds no installment.
\<close>

definition payInstallment ::
  "Date \<Rightarrow> nat \<Rightarrow> nat \<Rightarrow> nat \<Rightarrow> string option \<Rightarrow> string option \<Rightarrow> DB \<Rightarrow> nat \<times> DB" where
  "payInstallment now userId applicationId number txn payMethod db =
     (case find (\<lambda>a. aid a = applicationId \<and> a_userId a = userId) (applications db) of
        None \<Rightarrow> (404, db)
      | Some application \<Rightarrow>
          (case find (\<lambda>i. installmentNumber i = number) (installments application) of
             None \<Rightarrow> (404, db)
           | Some installment \<Rightarrow>
               if i_status installment = IPaid then (400, db)
               else
                 let insts = updateFirst (\<lambda>i. installmentNumber i = number)
                       (\<lambda>i. i\<lparr>i_status := IPaid, i_paidDate := Some now,
                               transactionId := txn, paymentMethod := payMethod\<rparr>)
                       (installments application);
                     app1 = application\<lparr>installments := insts,
                       paidInstallments := paidInstallments application + 1,
                       remainingInstallments := remainingInstallments application - 1\<rparr>;
                     nextPending = find (\<lambda>i. i_status i = IPending) insts;
                     app2 = app1\<lparr>nextDueDate := map_option i_dueDate nextPending\<rparr>;
                     app3 = (if remainingInstallments app2 = 0
                             then app2\<lparr>a_status := Completed, completedAt := Some now\<rparr>
                             else app2)
                 in (200, db\<lparr>applications := saveApplication app3 (applications db)\<rparr>)))"

section \<open>The reminder and penalty job (cron/paymentReminder.js)\<close>

text \<open>
  \<^verbatim>\<open>sendNotification\<close> catches every error of the sink: it stores the Notification
  record when the sink accepts it, and returns either way. Its callers ignore its result.
\<close>

definition sendNotification :: "Env \<Rightarrow> nat \<Rightarrow> NotificationType \<Rightarrow> DB \<Rightarrow> DB" where
  "sendNotification env userId T db =
     (if sinkOk env userId T then db\<lparr>notifs := notifs db @ [(userId, T)]\<rparr> else db)"

text \<open>A \<^verbatim>\<open>for ... of\<close> loop whose body may throw: the first error ends the loop.\<close>

fun forEach :: "('a \<Rightarrow> DB \<Rightarrow> outcome) \<Rightarrow> 'a list \<Rightarrow> DB \<Rightarrow> outcome" where
  "forEach body [] db = (None, db)"
| "forEach body (x # xs) db =
     (case body x db of
        (Some e, db') \<Rightarrow> (Some e, db')
      | (None, db') \<Rightarrow> forEach body xs db')"

definition saveLedgerIn :: "Env \<Rightarrow> PenaltyLedger \<Rightarrow> DB \<Rightarrow> outcome" where
  "saveLedgerIn env ledger db =
     (if saveOk env (lid ledger) then (None, db\<lparr>ledgers := saveLedger ledger (ledgers db)\<rparr>)
      else (Some SaveError, db))"

text \<open>The query \<open>nextDueDate: {$gte: lo, $lt: hi}\<close>; a missing date matches nothing.\<close>

definition dueWithin :: "Date \<Rightarrow> Date \<Rightarrow> EmiApplication \<Rightarrow> bool" where
  "dueWithin lo hi emi = (case nextDueDate emi of None \<Rightarrow> False | Some d \<Rightarrow> lo \<le> d \<and> d < hi)"

definition ledgerFor :: "EmiApplication \<Rightarrow> Date \<Rightarrow> PenaltyLedger \<Rightarrow> bool" where
  "ledgerFor emi due l = (emiApplicationId l = aid emi \<and> l_dueDate l = due)"

text \<open>
  The body of the loop of \<^verbatim>\<open>processUpcomingReminders\<close>. \<open>newLedger\<close> is the document
  that \<^verbatim>\<open>new PenaltyLedger({...})\<close> builds, with the defaults of the schema.
\<close>

definition newLedger :: "nat \<Rightarrow> EmiApplication \<Rightarrow> Date \<Rightarrow> PenaltyLedger" where
  "newLedger newId emi due =
     \<lparr>lid = newId, emiApplicationId = aid emi, l_userId = a_userId emi,
      installmentNo = paidInstallments emi + 1,
      originalAmount = monthlyEmi emi, l_dueDate = due,
      missedDate = None, penaltyRate = 1 / 10, daysOverdue = 0,
      penaltyAmount = 0, totalPayable = None, gracePeriodDays = 3,
      isInGracePeriod = True, l_status = LPending, paidAmount = None,
      l_paidDate = None, paymentReference = None, notifications = []\<rparr>"

definition upcomingEntry :: "Env \<Rightarrow> Date \<Rightarrow> EmiApplication \<Rightarrow> DB \<Rightarrow> outcome" where
  "upcomingEntry env now emi db =
     (case nextDueDate emi of
        None \<Rightarrow> (None, db)
      | Some due \<Rightarrow>
          (case find (\<lambda>l. ledgerFor emi due l \<and> hasNotification Reminder3Days l) (ledgers db) of
             Some existingLedger \<Rightarrow> (None, db)
           | None \<Rightarrow>
               let ledger =
                     (case find (ledgerFor emi due) (ledgers db) of
                        Some l \<Rightarrow> l
                      | None \<Rightarrow> newLedger (freshLid (ledgers db)) emi due);
                   db1 = sendNotification env (a_userId emi) Reminder3Days db
               in saveLedgerIn env (pushNotification Reminder3Days now ledger) db1))"

definition processUpcomingReminders :: "Env \<Rightarrow> Date \<Rightarrow> DB \<Rightarrow> outcome" where
  "processUpcomingReminders env now db =
     (let threeDaysFromNow = startOfDay (addDays now 3);
          nextDay = addDays threeDaysFromNow 1;
          upcomingEmis = filter (\<lambda>a. a_status a = Active \<and> dueWithin threeDaysFromNow nextDay a)
                           (applications db)
      in forEach (upcomingEntry env now) upcomingEmis db)"

text \<open>The body of the loop of \<^verbatim>\<open>processDueDateReminders\<close>.\<close>

definition dueTodayEntry :: "Env \<Rightarrow> Date \<Rightarrow> EmiApplication \<Rightarrow> DB \<Rightarrow> outcome" where
  "dueTodayEntry env now emi db =
     (case nextDueDate emi of
        None \<Rightarrow> (None, db)
      | Some due \<Rightarrow>
          (case find (ledgerFor emi due) (ledgers db) of
             None \<Rightarrow> (None, sendNotification env (a_userId emi) DueToday db)
           | Some ledger \<Rightarrow>
               if hasNotification DueToday ledger then (None, db)
               else
                 let db1 = sendNotification env (a_userId emi) DueToday db
                 in saveLedgerIn env (pushNotification DueToday now ledger) db1))"

definition processDueDateReminders :: "Env \<Rightarrow> Date \<Rightarrow> DB \<Rightarrow> outcome" where
  "processDueDateReminders env now db =
     (let today = startOfDay now;
          tomorrow = addDays today 1;
          dueToday = filter (\<lambda>a. a_status a = Active \<and> dueWithin today tomorrow a)
                       (applications db)
      in forEach (dueTodayEntry env now) dueToday db)"

text \<open>
  The body of the loop of \<^verbatim>\<open>processOverdueEmis\<close>, on an entry that the query returned.
  Reading \<^verbatim>\<open>ledger.totalPayable.toLocaleString\<close> throws a TypeError when
  \<open>totalPayable\<close> is undefined. The application is updated when the populated reference is
  set, that is when the application exists.
\<close>

definition markDefaulted :: "nat \<Rightarrow> EmiApplication list \<Rightarrow> EmiApplication list" where
  "markDefaulted appId as = map (\<lambda>a. if aid a = appId then a\<lparr>a_status := Defaulted\<rparr> else a) as"

definition saveOverdue :: "Env \<Rightarrow> Date \<Rightarrow> PenaltyLedger \<Rightarrow> DB \<Rightarrow> outcome" where
  "saveOverdue env now ledger db =
     saveLedgerIn env (if \<not> isInGracePeriod ledger then calculatePenalty now ledger else ledger) db"

definition graceEnded :: "Env \<Rightarrow> Date \<Rightarrow> PenaltyLedger \<Rightarrow> DB \<Rightarrow> outcome" where
  "graceEnded env now ledger db =
     (let ledger1 = calculatePenalty now
            (ledger\<lparr>isInGracePeriod := False, l_status := Overdue,
                    missedDate := Some (l_dueDate ledger)\<rparr>)
      in case totalPayable ledger1 of
           None \<Rightarrow> (Some TypeError, db)
         | Some payable \<Rightarrow>
             let db1 = sendNotification env (l_userId ledger1) OverdueGraceEnded db;
                 ledger2 = pushNotification OverdueGraceEnded now ledger1
             in if emiApplicationId ledger2 \<in> aid ` set (applications db1) then
                  (if updateOk env (emiApplicationId ledger2) then
                     saveOverdue env now ledger2
                       (db1\<lparr>applications :=
                          markDefaulted (emiApplicationId ledger2) (applications db1)\<rparr>)
                   else (Some UpdateError, db1))
                else saveOverdue env now ledger2 db1)"

definition overdueEntry :: "Env \<Rightarrow> Date \<Rightarrow> PenaltyLedger \<Rightarrow> DB \<Rightarrow> outcome" where
  "overdueEntry env now ledger db =
     (let today = startOfDay now;
          daysSinceDue = (today - l_dueDate ledger) div msPerDay;
          (ledger1, db1) =
            (if daysSinceDue = 1 \<and> \<not> hasNotification Overdue1Day ledger then
               (pushNotification Overdue1Day now (ledger\<lparr>l_status := GracePeriod\<rparr>),
                sendNotification env (l_userId ledger) Overdue1Day db)
             else (ledger, db))
      in if daysSinceDue \<ge> 3 \<and> isInGracePeriod ledger1 then graceEnded env now ledger1 db1
         else saveOverdue env now ledger1 db1)"

definition overdueSelected :: "Date \<Rightarrow> PenaltyLedger \<Rightarrow> bool" where
  "overdueSelected today l =
     (l_dueDate l < today \<and> l_status l \<in> {LPending, GracePeriod, Overdue})"

definition processOverdueEmis :: "Env \<Rightarrow> Date \<Rightarrow> DB \<Rightarrow> outcome" where
  "processOverdueEmis env now db =
     (let today = startOfDay now;
          overdueLedgers = filter (overdueSelected today) (ledgers db)
      in forEach (overdueEntry env now) overdueLedgers db)"

text \<open>
  \<^verbatim>\<open>runPaymentReminderJob\<close>: the three passes in a try block. An error of a pass skips
  what follows it; the catch block logs it, and the job returns.
\<close>

definition threePasses :: "Env \<Rightarrow> Date \<Rightarrow> DB \<Rightarrow> outcome" where
  "threePasses env now db =
     (case processUpcomingReminders env now db of
        (Some e, db1) \<Rightarrow> (Some e, db1)
      | (None, db1) \<Rightarrow>
          (case processDueDateReminders env now db1 of
             (Some e, db2) \<Rightarrow> (Some e, db2)
           | (None, db2) \<Rightarrow> processOverdueEmis env now db2))"

definition runPaymentReminderJob :: "Env \<Rightarrow> Date \<Rightarrow> DB \<Rightarrow> outcome" where
  "runPaymentReminderJob env now db =
     (case threePasses env now db of
        (Some e, db') \<Rightarrow> (None, db')
      | (None, db') \<Rightarrow> (None, db'))"

section \<open>What the overdue pass stores for an entry\<close>

text \<open>
  The entry that the body of the overdue loop saves when nothing fails, read off
  \<open>overdueEntry\<close>: the entry after the day-one block, after the grace-end block and after
  the daily update of the penalty. \<open>graceEndThrows\<close> is the case in which the grace-end
  block throws its TypeError. \<open>overdueRuns\<close> is the overdue pass run once at each of the
  given times, in order.
\<close>

definition daysSinceDue :: "Date \<Rightarrow> PenaltyLedger \<Rightarrow> int" where
  "daysSinceDue now l = (startOfDay now - l_dueDate l) div msPerDay"

definition dayOneLedger :: "Date \<Rightarrow> PenaltyLedger \<Rightarrow> PenaltyLedger" where
  "dayOneLedger now l =
     (if daysSinceDue now l = 1 \<and> \<not> hasNotification Overdue1Day l
      then pushNotification Overdue1Day now (l\<lparr>l_status := GracePeriod\<rparr>) else l)"

definition graceEndedLedger :: "Date \<Rightarrow> PenaltyLedger \<Rightarrow> PenaltyLedger" where
  "graceEndedLedger now l =
     calculatePenalty now
       (l\<lparr>isInGracePeriod := False, l_status := Overdue, missedDate := Some (l_dueDate l)\<rparr>)"

definition graceEndThrows :: "Date \<Rightarrow> PenaltyLedger \<Rightarrow> bool" where
  "graceEndThrows now l =
     (3 \<le> daysSinceDue now l \<and> isInGracePeriod (dayOneLedger now l) \<and>
      totalPayable (graceEndedLedger now (dayOneLedger now l)) = None)"

definition overdueLedger :: "Date \<Rightarrow> PenaltyLedger \<Rightarrow> PenaltyLedger" where
  "overdueLedger now l =
     (let l1 = dayOneLedger now l;
          l2 = (if 3 \<le> daysSinceDue now l \<and> isInGracePeriod l1
                then pushNotification OverdueGraceEnded now (graceEndedLedger now l1) else l1)
      in if \<not> isInGracePeriod l2 then calculatePenalty now l2 else l2)"

definition overdueRuns :: "Env \<Rightarrow> Date list \<Rightarrow> DB \<Rightarrow> DB" where
  "overdueRuns env nows db = fold (\<lambda>now db. snd (processOverdueEmis env now db)) nows db"

section \<open>The guards against sending a notification again\<close>







section \<open>The refund route (routes/merchant.js)\<close>

text \<open>
  The part of \<^verbatim>\<open>POST /refund/:orderId\<close> that writes an application: it assigns the
  status \<^verbatim>\<open>'cancelled'\<close> and saves the document. The value is not one of the enum of
  the schema; \<open>stored\<close> says whether the save stores it.
\<close>

definition refundApplication :: "bool \<Rightarrow> nat \<Rightarrow> DB \<Rightarrow> DB" where
  "refundApplication stored appId db =
     (if stored then
        db\<lparr>applications :=
          map (\<lambda>a. if aid a = appId then a\<lparr>a_status := Cancelled\<rparr> else a) (applications db)\<rparr>
      else db)"

section \<open>The states that the operations reach\<close>

text \<open>
  The states reached from one without applications by the operations of the repository that
  write an application or a ledger entry: the apply and pay routes, the refund route, the
  three passes of the job and the job itself, with any arguments, clock and environment.
\<close>

inductive reachable :: "DB \<Rightarrow> bool" where
  initial: "applications db = [] \<Longrightarrow> reachable db"
| applied: "reachable db \<Longrightarrow> reachable (snd (applyEmi now newId uid kyc plan req db))"
| paid: "reachable db \<Longrightarrow> reachable (snd (payInstallment now uid appId n txn m db))"
| refunded: "reachable db \<Longrightarrow> reachable (refundApplication stored appId db)"
| upcoming: "reachable db \<Longrightarrow> reachable (snd (processUpcomingReminders env now db))"
| dueToday: "reachable db \<Longrightarrow> reachable (snd (processDueDateReminders env now db))"
| overdue: "reachable db \<Longrightarrow> reachable (snd (processOverdueEmis env now db))"
| job: "reachable db \<Longrightarrow> reachable (snd (runPaymentReminderJob env now db))"

definition noneActive :: "DB \<Rightarrow> bool" where
  "noneActive db = list_all (\<lambda>a. a_status a \<noteq> Active) (applications db)"

section \<open>Comparing two runs of the job\<close>

text \<open>
  Two states hold the same data when they agree on the applications and the ledger entries;
  two environments are the same remote store when they agree on which saves and updates
  succeed; two outcomes agree when they throw the same error, or none, and leave the same
  data.
\<close>

definition sameData :: "DB \<Rightarrow> DB \<Rightarrow> bool" where
  "sameData a b = (applications a = applications b \<and> ledgers a = ledgers b)"

definition sameRemote :: "Env \<Rightarrow> Env \<Rightarrow> bool" where
  "sameRemote e e' = (saveOk e = saveOk e' \<and> updateOk e = updateOk e')"

definition agree :: "outcome \<Rightarrow> outcome \<Rightarrow> bool" where
  "agree r r' = (fst r = fst r' \<and> sameData (snd r) (snd r'))"

section \<open>Invariants of the stored applications\<close>

text \<open>
  The counters of an application add up to its tenure, and \<open>nextDueDate\<close> is the due date
  of the first installment that is pending, or nothing when none is.
\<close>

definition appInv :: "EmiApplication \<Rightarrow> bool" where
  "appInv a =
     (paidInstallments a + remainingInstallments a = int (a_tenure a) \<and>
      nextDueDate a = map_option i_dueDate (find (\<lambda>i. i_status i = IPending) (installments a)))"

definition dbInv :: "DB \<Rightarrow> bool" where
  "dbInv db = list_all appInv (applications db)"

section \<open>Example data\<close>

definition examplePlan :: EmiPlan where
  "examplePlan = \<lparr>tenure = 3, interestRate = 0, processingFee = 0, minOrderAmount = 1000,
     maxOrderAmount = Some 100000\<rparr>"

definition exampleKyc :: UserKyc where
  "exampleKyc = \<lparr>verificationStatus = Verified, creditLimit = 50000\<rparr>"

definition exampleRequest :: ApplyRequest where
  "exampleRequest = \<lparr>r_orderId = 5, r_emiPlanId = 2, r_principalAmount = 3000\<rparr>"

definition emptyDB :: DB where
  "emptyDB = \<lparr>applications = [], ledgers = [], notifs = []\<rparr>"

definition jan10 :: Date where
  "jan10 = civil 2025 1 10 (hours 10)"

definition jan31 :: Date where
  "jan31 = civil 2025 1 31 (hours 10)"

definition feb10 :: Date where
  "feb10 = civil 2025 2 10 (hours 10)"

text \<open>
  User 7 applies on 10 January for 3000 over three months; the application gets id 11.
  \<open>appliedDB\<close> is the state after the request.
\<close>

definition exampleApplication :: EmiApplication where
  "exampleApplication =
     \<lparr>aid = 11, a_userId = 7, orderId = 5, emiPlanId = 2, principalAmount = 3000,
      totalInterest = 0, a_processingFee = 0, totalAmount = 3000, a_tenure = 3,
      monthlyEmi = 1000, a_status = Approved,
      installments = [scheduledInstallment jan10 1000 1, scheduledInstallment jan10 1000 2,
        scheduledInstallment jan10 1000 3],
      paidInstallments = 0, remainingInstallments = 3,
      nextDueDate = Some (i_dueDate (scheduledInstallment jan10 1000 1)),
      approvedAt = Some jan10, completedAt = None\<rparr>"

definition appliedDB :: DB where
  "appliedDB = \<lparr>applications = [exampleApplication], ledgers = [], notifs = []\<rparr>"

text \<open>
  A ledger entry for the first installment of that application, overdue with a penalty of 2,
  and the state that holds the application and the entry.
\<close>

definition exampleLedger :: PenaltyLedger where
  "exampleLedger =
     \<lparr>lid = 21, emiApplicationId = 11, l_userId = 7, installmentNo = 1, originalAmount = 1000,
      l_dueDate = i_dueDate (scheduledInstallment jan10 1000 1),
      missedDate = Some (i_dueDate (scheduledInstallment jan10 1000 1)), penaltyRate = 1 / 10,
      daysOverdue = 2, penaltyAmount = 2, totalPayable = Some 1002, gracePeriodDays = 3,
      isInGracePeriod = False, l_status = Overdue, paidAmount = None, l_paidDate = None,
      paymentReference = None, notifications = []\<rparr>"

definition overdueDB :: DB where
  "overdueDB = appliedDB\<lparr>ledgers := [exampleLedger]\<rparr>"

text \<open>The application after its first installment has been paid on 10 February.\<close>

definition paidApplication :: EmiApplication where
  "paidApplication = exampleApplication
     \<lparr>installments :=
        [scheduledInstallment jan10 1000 1
           \<lparr>i_status := IPaid, i_paidDate := Some feb10, transactionId := Some ''txn-1'',
            paymentMethod := Some ''upi''\<rparr>,
         scheduledInstallment jan10 1000 2, scheduledInstallment jan10 1000 3],
      paidInstallments := 1, remainingInstallments := 2,
      nextDueDate := Some (i_dueDate (scheduledInstallment jan10 1000 2))\<rparr>"

text \<open>An environment in which every remote call succeeds.\<close>

definition okEnv :: Env where
  "okEnv = \<lparr>sinkOk = (\<lambda>_ _. True), saveOk = (\<lambda>_. True), updateOk = (\<lambda>_. True)\<rparr>"

text \<open>
  Two entries as the upcoming pass creates them, both due on 5 February at 10:00, and the
  state that holds them. In \<open>failingEnv\<close> the save of the first entry fails; in
  \<open>deafEnv\<close> the sink rejects every notification. The job runs on 7 February at 03:30.
\<close>

definition pendingLedger :: "nat \<Rightarrow> nat \<Rightarrow> PenaltyLedger" where
  "pendingLedger i appId =
     \<lparr>lid = i, emiApplicationId = appId, l_userId = 7, installmentNo = 1,
      originalAmount = 1000, l_dueDate = civil 2025 2 5 (hours 10), missedDate = None,
      penaltyRate = 1 / 10, daysOverdue = 0, penaltyAmount = 0, totalPayable = None,
      gracePeriodDays = 3, isInGracePeriod = True, l_status = LPending, paidAmount = None,
      l_paidDate = None, paymentReference = None, notifications = []\<rparr>"

definition twoLedgerDB :: DB where
  "twoLedgerDB =
     \<lparr>applications = [], ledgers = [pendingLedger 21 11, pendingLedger 22 12], notifs = []\<rparr>"

definition failingEnv :: Env where
  "failingEnv = okEnv\<lparr>saveOk := (\<lambda>i. i \<noteq> 21)\<rparr>"

definition deafEnv :: Env where
  "deafEnv = okEnv\<lparr>sinkOk := (\<lambda>_ _. False)\<rparr>"

definition feb7 :: Date where
  "feb7 = civil 2025 2 7 (hours 3 + 1800000)"


definition midnightLedger :: PenaltyLedger where
  "midnightLedger = (pendingLedger 23 13)\<lparr>l_dueDate := civil 2025 2 5 0\<rparr>"



text \<open>
  The example application with the status \<open>Active\<close>, which no operation of the repository
  writes, in a state without ledger entries; the state after the upcoming pass of
  2 February has created the entry of the application; and the first of the two pending
  entries after its first day, in a state of its own. The job runs at 03:30.
\<close>

definition activeApplication :: EmiApplication where
  "activeApplication = exampleApplication\<lparr>a_status := Active\<rparr>"







text \<open>
  The state after the first installment of the example application has been paid, and a
  run of the job two days later.
\<close>

definition paidDB :: DB where
  "paidDB = overdueDB\<lparr>applications := [paidApplication]\<rparr>"

definition feb12 :: Date where
  "feb12 = civil 2025 2 12 (hours 3 + 1800000)"


section \<open>The amortization calculator\<close>



section \<open>Schedule generation and payments\<close>

lemma list_all_saveApplication:
  "list_all P as \<Longrightarrow> P a \<Longrightarrow> list_all P (saveApplication a as)"
  by (auto simp: saveApplication_def list_all_iff)

lemma upt_1_Suc: "0 < n \<Longrightarrow> [Suc 0..<Suc n] = Suc 0 # [Suc (Suc 0)..<Suc n]"
  by (rule upt_conv_Cons) simp

lemma generateSchedule_ok:
  assumes "0 < a_tenure a"
  shows "generateSchedule d a =
     (None, a\<lparr>installments := map (scheduledInstallment d (monthlyEmi a)) [1..<Suc (a_tenure a)],
              remainingInstallments := int (a_tenure a),
              nextDueDate := Some (i_dueDate (scheduledInstallment d (monthlyEmi a) 1))\<rparr>)"
  using assms by (simp add: generateSchedule_def Let_def upt_1_Suc del: upt_Suc)

lemma generateSchedule_empty:
  "a_tenure a = 0 \<Longrightarrow> fst (generateSchedule d a) = Some TypeError"
  by (simp add: generateSchedule_def)

lemma generateSchedule_None_pos:
  "generateSchedule d a = (None, b) \<Longrightarrow> 0 < a_tenure a"
  using generateSchedule_empty [of a d] by (cases "a_tenure a") auto


lemma newApplication_simps [simp]:
  "a_tenure (newApplication newId uid req p emi) = tenure p"
  "paidInstallments (newApplication newId uid req p emi) = 0"
  "a_status (newApplication newId uid req p emi) = Approved"
  "principalAmount (newApplication newId uid req p emi) = r_principalAmount req"
  "aid (newApplication newId uid req p emi) = newId"
  "monthlyEmi (newApplication newId uid req p emi) = emi"
  by (simp_all add: newApplication_def Let_def)

text \<open>An apply request either leaves the state as it is or stores one new application.\<close>

lemma applyEmi_cases:
  "(fst (applyEmi now newId uid kyc plan req db) \<noteq> 201 \<and>
    snd (applyEmi now newId uid kyc plan req db) = db) \<or>
   (\<exists>p emi. plan = Some p \<and> 0 < tenure p \<and> calculateEMI p (r_principalAmount req) = Some emi \<and>
      applyEmi now newId uid kyc plan req db =
        (201, db\<lparr>applications := saveApplication
           (snd (generateSchedule now (newApplication newId uid req p emi))\<lparr>approvedAt := Some now\<rparr>)
           (applications db)\<rparr>))"
proof (cases "\<exists>p emi. plan = Some p \<and> 0 < tenure p \<and> calculateEMI p (r_principalAmount req) = Some emi")
  case True
  then obtain p emi where p: "plan = Some p" "0 < tenure p"
      "calculateEMI p (r_principalAmount req) = Some emi" by blast
  have "0 < a_tenure (newApplication newId uid req p emi)"
    using p(2) by simp
  from generateSchedule_ok [OF this, of now] show ?thesis
    using p by (auto simp: applyEmi_def split: option.splits)
next
  case False
  then show ?thesis
    by (auto simp: applyEmi_def split: option.splits prod.splits
          dest!: generateSchedule_None_pos)
qed



lemma find_SomeD_set: "find P xs = Some x \<Longrightarrow> x \<in> set xs"
  by (auto simp: find_Some_iff)


section \<open>The example data, evaluated\<close>

lemma upt_1_4: "[Suc 0..<4] = [Suc 0, 2, 3]"
  by code_simp

lemma calculateEMI_example: "calculateEMI examplePlan 3000 = Some 1000"
  by (simp add: calculateEMI_def examplePlan_def Math_ceil_def ceiling_unique)

lemma tenure_examplePlan: "tenure examplePlan = 3"
  by (simp add: examplePlan_def)

lemma generateSchedule_example:
  "generateSchedule jan10 (newApplication 11 7 exampleRequest examplePlan 1000)
     = (None, exampleApplication\<lparr>approvedAt := None\<rparr>)"
  by (simp add: generateSchedule_def newApplication_def examplePlan_def exampleRequest_def
      exampleApplication_def upt_1_4 Let_def)

lemma applyEmi_example:
  "applyEmi jan10 11 7 (Some exampleKyc) (Some examplePlan) exampleRequest emptyDB = (201, appliedDB)"
proof -
  have r: "r_principalAmount exampleRequest = 3000" by (simp add: exampleRequest_def)
  show ?thesis
    unfolding applyEmi_def
    by (simp add: exampleKyc_def r calculateEMI_example generateSchedule_example emptyDB_def
        saveApplication_def appliedDB_def exampleApplication_def)
qed

lemma payInstallment_example:
  "payInstallment feb10 7 11 1 (Some ''txn-1'') (Some ''upi'') overdueDB
     = (200, overdueDB\<lparr>applications := [paidApplication]\<rparr>)"
  by (simp add: payInstallment_def overdueDB_def appliedDB_def exampleApplication_def
      scheduledInstallment_def saveApplication_def paidApplication_def Let_def)

section \<open>A payment and the penalty ledger\<close>

lemma ledgers_payInstallment:
  "ledgers (snd (payInstallment now uid appId n txn payMethod db)) = ledgers db"
  by (simp add: payInstallment_def Let_def split: option.splits)

lemma updateFirst_mem:
  "find P xs = Some x \<Longrightarrow> f x \<in> set (updateFirst P f xs)"
  by (induction xs) (auto split: if_splits)

lemma saveApplication_mem: "a \<in> set (saveApplication a as)"
  by (auto simp: saveApplication_def)

lemma find_Some_P: "find P xs = Some x \<Longrightarrow> P x"
  by (auto simp: find_Some_iff)

text \<open>
  C1, as the code has it. The pay route leaves every ledger entry as it was: the matching
  entry keeps its status, its penalty and its empty payment fields. A payment that is
  accepted (status 200) marks the installment of the application as paid, with the paid
  date, the transaction id and the payment method.
\<close>

theorem payInstallment_marks_installment_only:
  "ledgers (snd (payInstallment now uid appId n txn payMethod db)) = ledgers db
   \<and> (fst (payInstallment now uid appId n txn payMethod db) = 200 \<longrightarrow>
        (\<exists>a \<in> set (applications (snd (payInstallment now uid appId n txn payMethod db))).
           aid a = appId \<and>
           (\<exists>i \<in> set (installments a). installmentNumber i = n \<and> i_status i = IPaid \<and>
              i_paidDate i = Some now \<and> transactionId i = txn \<and> paymentMethod i = payMethod)))"
proof (intro conjI impI)
  show "ledgers (snd (payInstallment now uid appId n txn payMethod db)) = ledgers db"
    by (rule ledgers_payInstallment)
next
  assume ok: "fst (payInstallment now uid appId n txn payMethod db) = 200"
  let ?f = "\<lambda>i. i\<lparr>i_status := IPaid, i_paidDate := Some now,
                 transactionId := txn, paymentMethod := payMethod\<rparr>"
  obtain a where a: "find (\<lambda>a. aid a = appId \<and> a_userId a = uid) (applications db) = Some a"
    using ok by (cases "find (\<lambda>a. aid a = appId \<and> a_userId a = uid) (applications db)")
      (auto simp: payInstallment_def)
  obtain i where i: "find (\<lambda>i. installmentNumber i = n) (installments a) = Some i"
    using ok a by (cases "find (\<lambda>i. installmentNumber i = n) (installments a)")
      (auto simp: payInstallment_def)
  have ain: "a \<in> set (applications db)" and aid: "aid a = appId"
    using find_SomeD_set [OF a] find_Some_P [OF a] by auto
  have num: "installmentNumber i = n" using find_Some_P [OF i] by simp
  have notpaid: "i_status i \<noteq> IPaid"
    using ok a i by (auto simp: payInstallment_def split: if_splits)
  define insts where "insts = updateFirst (\<lambda>i. installmentNumber i = n) ?f (installments a)"
  have mem: "?f i \<in> set insts"
    unfolding insts_def using i by (rule updateFirst_mem)
  define app3 where "app3 =
     (let app1 = a\<lparr>installments := insts,
                       paidInstallments := paidInstallments a + 1,
                       remainingInstallments := remainingInstallments a - 1\<rparr>;
          app2 = app1\<lparr>nextDueDate := map_option i_dueDate (find (\<lambda>i. i_status i = IPending) insts)\<rparr>
      in (if remainingInstallments app2 = 0
          then app2\<lparr>a_status := Completed, completedAt := Some now\<rparr> else app2))"
  have res: "snd (payInstallment now uid appId n txn payMethod db)
        = db\<lparr>applications := saveApplication app3 (applications db)\<rparr>"
    using a i notpaid by (simp add: payInstallment_def app3_def insts_def Let_def)
  have app3: "aid app3 = appId" "installments app3 = insts"
    using aid by (simp_all add: app3_def Let_def)
  have "app3 \<in> set (saveApplication app3 (applications db))"
    by (rule saveApplication_mem)
  then show "\<exists>a \<in> set (applications (snd (payInstallment now uid appId n txn payMethod db))).
           aid a = appId \<and>
           (\<exists>i \<in> set (installments a). installmentNumber i = n \<and> i_status i = IPaid \<and>
              i_paidDate i = Some now \<and> transactionId i = txn \<and> paymentMethod i = payMethod)"
    using mem num app3 by (auto simp: res intro!: bexI [of _ app3] bexI [of _ "?f i"])
qed

theorem payInstallment_marks_installment_only_witness:
  "ledgers (snd (payInstallment feb10 7 11 1 (Some ''txn-1'') (Some ''upi'') overdueDB)) = [exampleLedger]
   \<and> fst (payInstallment feb10 7 11 1 (Some ''txn-1'') (Some ''upi'') overdueDB) = 200
   \<and> (\<exists>a \<in> set (applications (snd (payInstallment feb10 7 11 1 (Some ''txn-1'') (Some ''upi'') overdueDB))).
           aid a = 11 \<and>
           (\<exists>i \<in> set (installments a). installmentNumber i = 1 \<and> i_status i = IPaid \<and>
              i_paidDate i = Some feb10 \<and> transactionId i = Some ''txn-1'' \<and> paymentMethod i = Some ''upi''))"
proof -
  have ok: "fst (payInstallment feb10 7 11 1 (Some ''txn-1'') (Some ''upi'') overdueDB) = 200"
    unfolding payInstallment_example by simp
  have l: "ledgers overdueDB = [exampleLedger]"
    by (simp add: overdueDB_def)
  show ?thesis
    using payInstallment_marks_installment_only [of feb10 7 11 1 "Some ''txn-1''" "Some ''upi''" overdueDB]
      ok l by simp
qed

section \<open>Validation of an apply request\<close>









section \<open>Generating a schedule again\<close>

text \<open>
  C8, as the code has it. \<open>generateSchedule\<close> checks nothing: on every application with a
  positive tenure, one with paid installments included, it succeeds, replaces the
  installments by as many pending ones as the tenure, sets \<open>remainingInstallments\<close> to the
  tenure and \<open>nextDueDate\<close> to the first due date, and leaves \<open>paidInstallments\<close> as it was.
\<close>

theorem generateSchedule_overwrites:
  assumes "0 < a_tenure a"
  shows "fst (generateSchedule d a) = None
       \<and> length (installments (snd (generateSchedule d a))) = a_tenure a
       \<and> (\<forall>i \<in> set (installments (snd (generateSchedule d a))). i_status i = IPending)
       \<and> remainingInstallments (snd (generateSchedule d a)) = int (a_tenure a)
       \<and> nextDueDate (snd (generateSchedule d a))
           = Some (i_dueDate (scheduledInstallment d (monthlyEmi a) 1))
       \<and> paidInstallments (snd (generateSchedule d a)) = paidInstallments a"
  by (auto simp: generateSchedule_ok [OF assms] scheduledInstallment_def simp del: upt_Suc)

lemma paidApplication_facts:
  "a_tenure paidApplication = 3" "monthlyEmi paidApplication = 1000"
  "paidInstallments paidApplication = 1" "remainingInstallments paidApplication = 2"
  "map i_status (installments paidApplication) = [IPaid, IPending, IPending]"
  by (simp_all add: paidApplication_def exampleApplication_def scheduledInstallment_def)

theorem generateSchedule_overwrites_witness:
  "fst (generateSchedule feb10 paidApplication) = None
   \<and> length (installments (snd (generateSchedule feb10 paidApplication))) = 3
   \<and> remainingInstallments (snd (generateSchedule feb10 paidApplication)) = 3
   \<and> paidInstallments (snd (generateSchedule feb10 paidApplication)) = 1"
  using generateSchedule_overwrites [of paidApplication feb10]
  by (simp add: paidApplication_facts)

text \<open>
  C8 as stated fails: the application whose first installment is paid is given a new
  schedule, without an error; its paid installment is pending again.
\<close>

theorem generateSchedule_paid_counterexample:
  "map i_status (installments paidApplication) = [IPaid, IPending, IPending]
   \<and> fst (generateSchedule feb10 paidApplication) = None
   \<and> map i_status (installments (snd (generateSchedule feb10 paidApplication)))
       = [IPending, IPending, IPending]
   \<and> remainingInstallments paidApplication = 2
   \<and> remainingInstallments (snd (generateSchedule feb10 paidApplication)) = 3"
proof -
  have t: "0 < a_tenure paidApplication" by (simp add: paidApplication_facts)
  show ?thesis
    by (simp add: generateSchedule_ok [OF t] paidApplication_facts upt_1_4
        scheduledInstallment_def del: upt_Suc)
qed

section \<open>The due dates of a schedule\<close>

lemma msPerDay_val: "msPerDay = 86400000"
  by (simp add: msPerDay_def)

lemma Day_MakeDate:
  "0 \<le> tw \<Longrightarrow> tw < msPerDay \<Longrightarrow> Day (MakeDate dn tw) = dn"
  by (simp add: Day_def MakeDate_def msPerDay_val)

lemma TimeWithinDay_MakeDate:
  "0 \<le> tw \<Longrightarrow> tw < msPerDay \<Longrightarrow> TimeWithinDay (MakeDate dn tw) = tw"
  by (simp add: TimeWithinDay_def MakeDate_def msPerDay_val)

text \<open>
  The due date of installment \<open>i\<close>, from the calendar fields of the start date and of the
  date that \<open>setMonth\<close> produces.
\<close>

lemma dueDate_fields:
  assumes "startDate = MakeDate dn tw" and "0 \<le> tw" and "tw < msPerDay"
    and "YearFromDay dn = y" and "MonthFromDay dn = m" and "DateFromDay dn = d"
    and "MakeDay y (m + int i) d = dn'"
    and "YearFromDay dn' = y'" and "MonthFromDay dn' = m'"
  shows "i_dueDate (scheduledInstallment startDate e i) = MakeDate (MakeDay y' m' 5) tw"
  using assms
  by (simp add: scheduledInstallment_def setDate_def setMonth_def getMonth_def getDate_def
      getFullYear_def Day_MakeDate TimeWithinDay_MakeDate)

lemma DayFromYear_2025: "DayFromYear 2025 = 20089"
  by (simp add: DayFromYear_def)

lemma leap_2025: "InLeapYear 2025 = False"
  by (simp add: InLeapYear_def)

lemma YearFromDay_2025:
  "YearFromDay 20098 = 2025" "YearFromDay 20119 = 2025" "YearFromDay 20129 = 2025"
  "YearFromDay 20150 = 2025" "YearFromDay 20157 = 2025" "YearFromDay 20178 = 2025"
  "YearFromDay 20188 = 2025" "YearFromDay 20209 = 2025"
  by (simp_all add: YearFromDay_def DayFromYear_def)

lemma MonthFromDay_2025:
  "MonthFromDay 20098 = 0" "MonthFromDay 20119 = 0" "MonthFromDay 20129 = 1"
  "MonthFromDay 20150 = 2" "MonthFromDay 20157 = 2" "MonthFromDay 20178 = 2"
  "MonthFromDay 20188 = 3" "MonthFromDay 20209 = 4"
  by (simp_all add: MonthFromDay_def YearFromDay_2025 DayFromYear_2025 leap_2025
      daysBeforeMonth_def)

lemma DateFromDay_2025:
  "DateFromDay 20098 = 10" "DateFromDay 20119 = 31"
  by (simp_all add: DateFromDay_def MonthFromDay_2025 YearFromDay_2025 DayFromYear_2025
      leap_2025 daysBeforeMonth_def)

lemma MakeDay_2025:
  "MakeDay 2025 (0 + int 1) 31 = 20150" "MakeDay 2025 (0 + int 2) 31 = 20178"
  "MakeDay 2025 (0 + int 3) 31 = 20209"
  "MakeDay 2025 (0 + int 1) 10 = 20129" "MakeDay 2025 (0 + int 2) 10 = 20157"
  "MakeDay 2025 (0 + int 3) 10 = 20188"
  by (simp_all add: MakeDay_def DayFromYear_2025 leap_2025 daysBeforeMonth_def)

lemma jan_fields:
  "jan31 = MakeDate 20119 (hours 10)" "jan10 = MakeDate 20098 (hours 10)"
  by (simp_all add: jan31_def jan10_def civil_def MakeDay_def DayFromYear_2025 leap_2025
      daysBeforeMonth_def)

lemma hours_10: "0 \<le> hours 10" "hours 10 < msPerDay"
  by (simp_all add: hours_def msPerDay_val)

lemma civil_2025:
  "civil 2025 2 5 t = MakeDate (MakeDay 2025 1 5) t"
  "civil 2025 3 5 t = MakeDate (MakeDay 2025 2 5) t"
  "civil 2025 4 5 t = MakeDate (MakeDay 2025 3 5) t"
  "civil 2025 5 5 t = MakeDate (MakeDay 2025 4 5) t"
  by (simp_all add: civil_def)

lemma dueDates_jan31:
  "i_dueDate (scheduledInstallment jan31 e 1) = civil 2025 3 5 (hours 10)"
  "i_dueDate (scheduledInstallment jan31 e 2) = civil 2025 3 5 (hours 10)"
  "i_dueDate (scheduledInstallment jan31 e 3) = civil 2025 5 5 (hours 10)"
  unfolding civil_2025
  by (rule dueDate_fields [OF jan_fields(1) hours_10 YearFromDay_2025(2) MonthFromDay_2025(2)
        DateFromDay_2025(2)], rule MakeDay_2025, rule YearFromDay_2025, rule MonthFromDay_2025)+

lemma dueDates_jan10:
  "i_dueDate (scheduledInstallment jan10 e 1) = civil 2025 2 5 (hours 10)"
  "i_dueDate (scheduledInstallment jan10 e 2) = civil 2025 3 5 (hours 10)"
  "i_dueDate (scheduledInstallment jan10 e 3) = civil 2025 4 5 (hours 10)"
  unfolding civil_2025
  by (rule dueDate_fields [OF jan_fields(2) hours_10 YearFromDay_2025(1) MonthFromDay_2025(1)
        DateFromDay_2025(1)], rule MakeDay_2025, rule YearFromDay_2025, rule MonthFromDay_2025)+

lemma fields_jan31: "getFullYear jan31 = 2025 \<and> getMonth jan31 = 0 \<and> getDate jan31 = 31"
  by (simp add: getFullYear_def getMonth_def getDate_def jan_fields Day_MakeDate hours_10
      YearFromDay_2025 MonthFromDay_2025 DateFromDay_2025)

text \<open>
  The schedule of the example application, generated on 10 January: 5 February, 5 March and
  5 April.
\<close>

lemma generateSchedule_mid_month:
  "map i_dueDate (installments exampleApplication)
     = [civil 2025 2 5 (hours 10), civil 2025 3 5 (hours 10), civil 2025 4 5 (hours 10)]"
  by (simp add: exampleApplication_def dueDates_jan10 [simplified])

text \<open>
  C3 fails on the code for a generation date at the end of a month. For an application of
  tenure 3 generated on 31 January 2025, \<open>setMonth\<close> first moves to 31 February, which is
  3 March, and \<open>setDate(5)\<close> then gives 5 March: the due dates are 5 March, 5 March and
  5 May, where the claim has 5 February, 5 March and 5 April.
\<close>

theorem generateSchedule_month_end:
  "getFullYear jan31 = 2025 \<and> getMonth jan31 = 0 \<and> getDate jan31 = 31
   \<and> fst (generateSchedule jan31 (newApplication 11 7 exampleRequest examplePlan 1000)) = None
   \<and> map i_dueDate (installments
         (snd (generateSchedule jan31 (newApplication 11 7 exampleRequest examplePlan 1000))))
       = [civil 2025 3 5 (hours 10), civil 2025 3 5 (hours 10), civil 2025 5 5 (hours 10)]"
proof -
  have t: "0 < a_tenure (newApplication 11 7 exampleRequest examplePlan 1000)"
    by (simp add: tenure_examplePlan)
  show ?thesis
    by (simp add: fields_jan31 generateSchedule_ok [OF t] tenure_examplePlan upt_1_4
        dueDates_jan31 [simplified] del: upt_Suc)
qed

section \<open>No application becomes active\<close>

lemma noneActive_saveApplication:
  "noneActive db \<Longrightarrow> a_status a \<noteq> Active
     \<Longrightarrow> noneActive (db\<lparr>applications := saveApplication a (applications db)\<rparr>)"
  by (simp add: noneActive_def list_all_saveApplication)

lemma noneActive_applyEmi:
  assumes "noneActive db"
  shows "noneActive (snd (applyEmi now newId uid kyc plan req db))"
proof -
  from applyEmi_cases [of now newId uid kyc plan req db]
  consider "snd (applyEmi now newId uid kyc plan req db) = db"
    | p emi where "0 < tenure p"
      "snd (applyEmi now newId uid kyc plan req db) =
        db\<lparr>applications := saveApplication
           (snd (generateSchedule now (newApplication newId uid req p emi))\<lparr>approvedAt := Some now\<rparr>)
           (applications db)\<rparr>"
    by auto
  then show ?thesis
  proof cases
    case 1
    then show ?thesis using assms by simp
  next
    case 2
    have t: "0 < a_tenure (newApplication newId uid req p emi)" using 2(1) by simp
    show ?thesis
      unfolding 2(2) using assms
      by (intro noneActive_saveApplication) (simp_all add: generateSchedule_ok [OF t])
  qed
qed

lemma noneActive_payInstallment:
  assumes "noneActive db"
  shows "noneActive (snd (payInstallment now uid appId n txn m db))"
proof (cases "find (\<lambda>a. aid a = appId \<and> a_userId a = uid) (applications db)")
  case None
  then show ?thesis using assms by (simp add: payInstallment_def)
next
  case (Some a)
  then have "a \<in> set (applications db)" by (rule find_SomeD_set)
  then have a: "a_status a \<noteq> Active" using assms by (simp add: noneActive_def list_all_iff)
  show ?thesis
    using assms a
    by (auto simp: payInstallment_def Some Let_def split: option.splits
          intro!: noneActive_saveApplication)
qed

lemma noneActive_refundApplication:
  "noneActive db \<Longrightarrow> noneActive (refundApplication stored appId db)"
  by (auto simp: noneActive_def refundApplication_def list_all_iff)

text \<open>Without an active application the first two passes select nothing.\<close>

lemma filter_active_Nil:
  "noneActive db \<Longrightarrow> filter (\<lambda>a. a_status a = Active \<and> Q a) (applications db) = []"
  by (auto simp: noneActive_def list_all_iff filter_empty_conv)

lemma processUpcomingReminders_noneActive:
  "noneActive db \<Longrightarrow> processUpcomingReminders env now db = (None, db)"
  by (simp add: processUpcomingReminders_def Let_def filter_active_Nil)

lemma processDueDateReminders_noneActive:
  "noneActive db \<Longrightarrow> processDueDateReminders env now db = (None, db)"
  by (simp add: processDueDateReminders_def Let_def filter_active_Nil)

text \<open>The overdue pass writes the status \<open>Defaulted\<close> only.\<close>

lemma noneActive_markDefaulted:
  "noneActive db \<Longrightarrow> noneActive (db\<lparr>applications := markDefaulted appId (applications db)\<rparr>)"
  by (auto simp: noneActive_def markDefaulted_def list_all_iff)

lemma noneActive_sendNotification [simp]:
  "noneActive (sendNotification env uid T db) = noneActive db"
  by (simp add: noneActive_def sendNotification_def)

lemma noneActive_saveLedgerIn:
  "noneActive db \<Longrightarrow> noneActive (snd (saveLedgerIn env l db))"
  by (simp add: noneActive_def saveLedgerIn_def)

lemma noneActive_overdueEntry:
  assumes "noneActive db"
  shows "noneActive (snd (overdueEntry env now l db))"
proof -
  have s: "noneActive (snd (saveOverdue env now l' db'))" if "noneActive db'" for l' db'
    using that by (simp add: saveOverdue_def noneActive_saveLedgerIn)
  have g: "noneActive (snd (graceEnded env now l' db'))" if "noneActive db'" for l' db'
    using that
    by (auto simp: graceEnded_def Let_def s noneActive_markDefaulted split: option.splits)
  show ?thesis
    using assms by (auto simp: overdueEntry_def Let_def s g)
qed

lemma forEach_preserves:
  assumes "\<And>x db. P db \<Longrightarrow> P (snd (body x db))" and "P db"
  shows "P (snd (forEach body xs db))"
  using assms(2)
proof (induction xs arbitrary: db)
  case Nil
  then show ?case by simp
next
  case (Cons x xs)
  from assms(1) [OF Cons.prems, of x] Cons.IH show ?case
    by (cases "body x db") (auto split: option.splits)
qed

lemma noneActive_processOverdueEmis:
  "noneActive db \<Longrightarrow> noneActive (snd (processOverdueEmis env now db))"
  unfolding processOverdueEmis_def Let_def
  by (rule forEach_preserves) (auto intro: noneActive_overdueEntry)

lemma noneActive_runPaymentReminderJob:
  assumes "noneActive db"
  shows "noneActive (snd (runPaymentReminderJob env now db))"
proof -
  have "threePasses env now db = processOverdueEmis env now db"
    using assms
    by (simp add: threePasses_def processUpcomingReminders_noneActive
        processDueDateReminders_noneActive)
  then show ?thesis
    using noneActive_processOverdueEmis [OF assms, of env now]
    by (auto simp: runPaymentReminderJob_def split: prod.splits option.splits)
qed

lemma reachable_noneActive: "reachable db \<Longrightarrow> noneActive db"
proof (induction rule: reachable.induct)
  case (initial db)
  then show ?case by (simp add: noneActive_def)
qed (simp_all add: noneActive_applyEmi noneActive_payInstallment noneActive_refundApplication
      processUpcomingReminders_noneActive processDueDateReminders_noneActive
      noneActive_processOverdueEmis noneActive_runPaymentReminderJob)

lemma applyEmi_approved:
  assumes "fst (applyEmi now newId uid kyc plan req db) = 201"
  shows "\<exists>a \<in> set (applications (snd (applyEmi now newId uid kyc plan req db))).
           aid a = newId \<and> a_status a = Approved"
proof -
  from applyEmi_cases [of now newId uid kyc plan req db] assms
  obtain p emi where p: "0 < tenure p"
      "applyEmi now newId uid kyc plan req db =
        (201, db\<lparr>applications := saveApplication
           (snd (generateSchedule now (newApplication newId uid req p emi))\<lparr>approvedAt := Some now\<rparr>)
           (applications db)\<rparr>)"
    by auto
  let ?a = "snd (generateSchedule now (newApplication newId uid req p emi))\<lparr>approvedAt := Some now\<rparr>"
  have t: "0 < a_tenure (newApplication newId uid req p emi)" using p(1) by simp
  have "aid ?a = newId \<and> a_status ?a = Approved"
    by (simp add: generateSchedule_ok [OF t])
  moreover have "?a \<in> set (applications (snd (applyEmi now newId uid kyc plan req db)))"
    by (simp add: p(2) saveApplication_mem)
  ultimately show ?thesis by blast
qed

text \<open>
  C9. In every state that the operations reach, no application has the status \<open>Active\<close>: the
  apply route stores its application as \<open>Approved\<close>, and no operation writes \<open>Active\<close>. The
  upcoming pass and the due-today pass select active applications only, so in such a state
  they select nothing: they return the state as it is, with no notification sent.
\<close>

theorem no_application_becomes_active:
  assumes "reachable db"
  shows "(\<forall>a \<in> set (applications db). a_status a \<noteq> Active)
       \<and> (fst (applyEmi t newId uid kyc plan req db) = 201 \<longrightarrow>
            (\<exists>a \<in> set (applications (snd (applyEmi t newId uid kyc plan req db))).
               aid a = newId \<and> a_status a = Approved))
       \<and> filter (\<lambda>a. a_status a = Active \<and> Q a) (applications db) = []
       \<and> processUpcomingReminders env now db = (None, db)
       \<and> processDueDateReminders env now db = (None, db)"
proof -
  have n: "noneActive db" using assms by (rule reachable_noneActive)
  then have "\<forall>a \<in> set (applications db). a_status a \<noteq> Active"
    by (simp add: noneActive_def list_all_iff)
  with n show ?thesis
    using applyEmi_approved [of t newId uid kyc plan req db]
    by (simp add: filter_active_Nil processUpcomingReminders_noneActive
        processDueDateReminders_noneActive)
qed

theorem no_application_becomes_active_witness:
  "reachable appliedDB
   \<and> map a_status (applications appliedDB) = [Approved]
   \<and> processUpcomingReminders okEnv feb10 appliedDB = (None, appliedDB)
   \<and> processDueDateReminders okEnv feb10 appliedDB = (None, appliedDB)"
proof -
  have "reachable emptyDB"
    by (rule reachable.initial) (simp add: emptyDB_def)
  from reachable.applied [OF this, of jan10 11 7 "Some exampleKyc" "Some examplePlan" exampleRequest]
  have r: "reachable appliedDB" by (simp add: applyEmi_example)
  have "map a_status (applications appliedDB) = [Approved]"
    by (simp add: appliedDB_def exampleApplication_def)
  then show ?thesis
    using r no_application_becomes_active [OF r, of _ _ _ _ _ _ _ okEnv feb10] by simp
qed

section \<open>Failures within a run of the job\<close>

lemma runPaymentReminderJob_never_throws:
  "fst (runPaymentReminderJob env now db) = None"
  by (simp add: runPaymentReminderJob_def split: prod.splits option.splits)

lemma runPaymentReminderJob_state:
  "snd (runPaymentReminderJob env now db) = snd (threePasses env now db)"
  by (simp add: runPaymentReminderJob_def split: prod.splits option.splits)

text \<open>The sink has no influence on the data or on the errors.\<close>

lemma sameData_refl [simp]: "sameData db db"
  by (simp add: sameData_def)

lemma sameData_sendNotification [simp]:
  "sameData (sendNotification e u T a) b = sameData a b"
  "sameData a (sendNotification e u T b) = sameData a b"
  by (simp_all add: sameData_def sendNotification_def)

lemma agree_saveLedgerIn:
  "sameRemote e e' \<Longrightarrow> sameData a b \<Longrightarrow> agree (saveLedgerIn e l a) (saveLedgerIn e' l b)"
  by (simp add: agree_def saveLedgerIn_def sameRemote_def sameData_def)

lemma agree_forEach:
  assumes "\<And>x a b. sameData a b \<Longrightarrow> agree (f x a) (g x b)" and "sameData a b"
  shows "agree (forEach f xs a) (forEach g xs b)"
  using assms(2)
proof (induction xs arbitrary: a b)
  case Nil
  then show ?case by (simp add: agree_def)
next
  case (Cons x xs)
  from assms(1) [OF Cons.prems, of x] show ?case
    using Cons.IH
    by (cases "f x a"; cases "g x b") (auto simp: agree_def split: option.splits)
qed

lemma agree_upcomingEntry:
  assumes "sameRemote e e'" and "sameData a b"
  shows "agree (upcomingEntry e now emi a) (upcomingEntry e' now emi b)"
proof -
  have l: "ledgers a = ledgers b" using assms(2) by (simp add: sameData_def)
  show ?thesis
    using assms
    by (auto simp: upcomingEntry_def l Let_def agree_saveLedgerIn split: option.splits)
      (simp_all add: agree_def)
qed

lemma agree_dueTodayEntry:
  assumes "sameRemote e e'" and "sameData a b"
  shows "agree (dueTodayEntry e now emi a) (dueTodayEntry e' now emi b)"
proof -
  have l: "ledgers a = ledgers b" using assms(2) by (simp add: sameData_def)
  show ?thesis
    using assms
    by (auto simp: dueTodayEntry_def l Let_def agree_saveLedgerIn split: option.splits)
      (simp_all add: agree_def)
qed

lemma agree_saveOverdue:
  "sameRemote e e' \<Longrightarrow> sameData a b \<Longrightarrow> agree (saveOverdue e now l a) (saveOverdue e' now l b)"
  by (simp add: saveOverdue_def agree_saveLedgerIn)

lemma sendNotification_data [simp]:
  "applications (sendNotification e u T db) = applications db"
  "ledgers (sendNotification e u T db) = ledgers db"
  by (simp_all add: sendNotification_def)

lemma sameData_applications_update:
  "sameData a b \<Longrightarrow> sameData (a\<lparr>applications := x\<rparr>) (b\<lparr>applications := x\<rparr>)"
  by (simp add: sameData_def)

lemma agree_error: "sameData a b \<Longrightarrow> agree (Some err, a) (Some err, b)"
  by (simp add: agree_def)

lemma agree_graceEnded:
  assumes "sameRemote e e'" and "sameData a b"
  shows "agree (graceEnded e now l a) (graceEnded e' now l b)"
proof -
  have ab: "applications a = applications b" using assms(2) by (simp add: sameData_def)
  have u: "updateOk e = updateOk e'" using assms(1) by (simp add: sameRemote_def)
  show ?thesis
    unfolding graceEnded_def Let_def
    using assms
    by (auto simp: ab u split: option.splits
          intro!: agree_saveOverdue agree_error sameData_applications_update)
qed

lemma agree_overdueEntry:
  assumes "sameRemote e e'" and "sameData a b"
  shows "agree (overdueEntry e now l a) (overdueEntry e' now l b)"
  unfolding overdueEntry_def Let_def
  using assms by (auto intro!: agree_saveOverdue agree_graceEnded)

lemma agree_processUpcomingReminders:
  assumes "sameRemote e e'" and "sameData a b"
  shows "agree (processUpcomingReminders e now a) (processUpcomingReminders e' now b)"
proof -
  have ab: "applications a = applications b" using assms(2) by (simp add: sameData_def)
  show ?thesis
    unfolding processUpcomingReminders_def Let_def ab
    using assms by (intro agree_forEach agree_upcomingEntry)
qed

lemma agree_processDueDateReminders:
  assumes "sameRemote e e'" and "sameData a b"
  shows "agree (processDueDateReminders e now a) (processDueDateReminders e' now b)"
proof -
  have ab: "applications a = applications b" using assms(2) by (simp add: sameData_def)
  show ?thesis
    unfolding processDueDateReminders_def Let_def ab
    using assms by (intro agree_forEach agree_dueTodayEntry)
qed

lemma agree_processOverdueEmis:
  assumes "sameRemote e e'" and "sameData a b"
  shows "agree (processOverdueEmis e now a) (processOverdueEmis e' now b)"
proof -
  have ab: "ledgers a = ledgers b" using assms(2) by (simp add: sameData_def)
  show ?thesis
    unfolding processOverdueEmis_def Let_def ab
    using assms by (intro agree_forEach agree_overdueEntry)
qed

lemma agree_threePasses:
  assumes "sameRemote e e'"
  shows "agree (threePasses e now db) (threePasses e' now db)"
proof -
  obtain r1 a1 where p1: "processUpcomingReminders e now db = (r1, a1)" by (cases "processUpcomingReminders e now db")
  obtain r1' b1 where q1: "processUpcomingReminders e' now db = (r1', b1)" by (cases "processUpcomingReminders e' now db")
  have s1: "r1 = r1'" "sameData a1 b1"
    using agree_processUpcomingReminders [OF assms sameData_refl, of now db] p1 q1
    by (simp_all add: agree_def)
  obtain r2 a2 where p2: "processDueDateReminders e now a1 = (r2, a2)" by (cases "processDueDateReminders e now a1")
  obtain r2' b2 where q2: "processDueDateReminders e' now b1 = (r2', b2)" by (cases "processDueDateReminders e' now b1")
  have s2: "r2 = r2'" "sameData a2 b2"
    using agree_processDueDateReminders [OF assms s1(2), of now] p2 q2
    by (simp_all add: agree_def)
  have s3: "agree (processOverdueEmis e now a2) (processOverdueEmis e' now b2)"
    using assms s2(2) by (rule agree_processOverdueEmis)
  show ?thesis
    using s1 s2 s3
    by (auto simp: threePasses_def p1 q1 p2 q2 agree_def split: option.splits)
qed

text \<open>A failed save ends the pass at that entry.\<close>

lemma forEach_append:
  "forEach body (xs @ ys) db =
     (case forEach body xs db of
        (Some e, db') \<Rightarrow> (Some e, db')
      | (None, db') \<Rightarrow> forEach body ys db')"
  by (induction xs arbitrary: db) (auto split: prod.splits option.splits)

lemma lid_calculatePenalty [simp]: "lid (calculatePenalty now l) = lid l"
  by (simp add: calculatePenalty_def Let_def)

lemma lid_pushNotification [simp]: "lid (pushNotification T now l) = lid l"
  by (simp add: pushNotification_def)

lemma saveLedgerIn_fails:
  "\<not> saveOk env (lid l) \<Longrightarrow> saveLedgerIn env l db = (Some SaveError, db)"
  by (simp add: saveLedgerIn_def)

lemma overdueEntry_save_fails:
  assumes "\<not> saveOk env (lid l)"
  shows "fst (overdueEntry env now l db) \<noteq> None
       \<and> ledgers (snd (overdueEntry env now l db)) = ledgers db"
proof -
  have s: "saveOverdue env now l' db' = (Some SaveError, db')" if "lid l' = lid l" for l' db'
    using assms that by (simp add: saveOverdue_def saveLedgerIn_fails)
  have g: "fst (graceEnded env now l' db') \<noteq> None
       \<and> ledgers (snd (graceEnded env now l' db')) = ledgers db'" if "lid l' = lid l" for l' db'
    using that by (auto simp: graceEnded_def Let_def s split: option.splits)
  show ?thesis
    unfolding overdueEntry_def Let_def
    by (auto simp: s g simp del: not_None_eq)
qed

lemma processOverdueEmis_save_fails:
  assumes "filter (overdueSelected (startOfDay now)) (ledgers db) = pre @ l # post"
    and "forEach (overdueEntry env now) pre db = (None, db1)"
    and "\<not> saveOk env (lid l)"
  shows "fst (processOverdueEmis env now db) \<noteq> None
       \<and> ledgers (snd (processOverdueEmis env now db)) = ledgers db1"
  using overdueEntry_save_fails [OF assms(3), of now db1]
  by (cases "overdueEntry env now l db1")
    (auto simp: processOverdueEmis_def Let_def assms(1,2) forEach_append split: option.splits)

text \<open>The example: two entries, one day past due.\<close>

lemma feb_days:
  "civil 2025 2 5 t = MakeDate 20124 t" "civil 2025 2 7 t = MakeDate 20126 t"
  by (simp_all add: civil_def MakeDay_def DayFromYear_2025 leap_2025 daysBeforeMonth_def)

lemma startOfDay_feb7: "startOfDay feb7 = MakeDate 20126 0"
  by (simp add: feb7_def feb_days startOfDay_def MakeDate_def msPerDay_val hours_def)

lemma daysSinceDue_feb7:
  "(startOfDay feb7 - civil 2025 2 5 (hours 10)) div msPerDay = 1"
  by (simp add: startOfDay_feb7 feb_days MakeDate_def msPerDay_val hours_def)

lemma due_before_feb7: "civil 2025 2 5 (hours 10) < startOfDay feb7"
  by (simp add: startOfDay_feb7 feb_days MakeDate_def msPerDay_val hours_def)

lemma pendingLedger_simps [simp]:
  "lid (pendingLedger i a) = i" "l_dueDate (pendingLedger i a) = civil 2025 2 5 (hours 10)"
  "l_status (pendingLedger i a) = LPending" "isInGracePeriod (pendingLedger i a)"
  "notifications (pendingLedger i a) = []" "l_userId (pendingLedger i a) = 7"
  by (simp_all add: pendingLedger_def)

lemma overdueEntry_pendingLedger:
  "overdueEntry env feb7 (pendingLedger i a) db =
     saveLedgerIn env (pushNotification Overdue1Day feb7 ((pendingLedger i a)\<lparr>l_status := GracePeriod\<rparr>))
       (sendNotification env 7 Overdue1Day db)"
  by (simp add: overdueEntry_def daysSinceDue_feb7 hasNotification_def saveOverdue_def
      pushNotification_def Let_def)

lemma selected_twoLedgerDB:
  "filter (overdueSelected (startOfDay feb7)) (ledgers twoLedgerDB)
     = [pendingLedger 21 11, pendingLedger 22 12]"
  by (simp add: twoLedgerDB_def overdueSelected_def due_before_feb7)

lemma noneActive_twoLedgerDB: "noneActive twoLedgerDB"
  by (simp add: noneActive_def twoLedgerDB_def)

lemma threePasses_twoLedgerDB:
  "threePasses env feb7 twoLedgerDB = processOverdueEmis env feb7 twoLedgerDB"
  by (simp add: threePasses_def processUpcomingReminders_noneActive
        processDueDateReminders_noneActive noneActive_twoLedgerDB)

lemma failing_run:
  "processOverdueEmis failingEnv feb7 twoLedgerDB
     = (Some SaveError, twoLedgerDB\<lparr>notifs := [(7, Overdue1Day)]\<rparr>)"
  unfolding processOverdueEmis_def Let_def selected_twoLedgerDB
  by (simp add: overdueEntry_pendingLedger saveLedgerIn_def failingEnv_def okEnv_def
      sendNotification_def twoLedgerDB_def)

lemma ok_run:
  "processOverdueEmis okEnv feb7 twoLedgerDB
     = (None, twoLedgerDB\<lparr>notifs := [(7, Overdue1Day), (7, Overdue1Day)],
          ledgers := [pushNotification Overdue1Day feb7 ((pendingLedger 21 11)\<lparr>l_status := GracePeriod\<rparr>),
                      pushNotification Overdue1Day feb7 ((pendingLedger 22 12)\<lparr>l_status := GracePeriod\<rparr>)]\<rparr>)"
  unfolding processOverdueEmis_def Let_def selected_twoLedgerDB
  by (simp add: overdueEntry_pendingLedger saveLedgerIn_def okEnv_def sendNotification_def
      twoLedgerDB_def saveLedger_def)

lemma deaf_run:
  "processOverdueEmis deafEnv feb7 twoLedgerDB
     = (None, twoLedgerDB\<lparr>
          ledgers := [pushNotification Overdue1Day feb7 ((pendingLedger 21 11)\<lparr>l_status := GracePeriod\<rparr>),
                      pushNotification Overdue1Day feb7 ((pendingLedger 22 12)\<lparr>l_status := GracePeriod\<rparr>)]\<rparr>)"
  unfolding processOverdueEmis_def Let_def selected_twoLedgerDB
  by (simp add: overdueEntry_pendingLedger saveLedgerIn_def deafEnv_def okEnv_def
      sendNotification_def twoLedgerDB_def saveLedger_def)

text \<open>
  C7, as the code has it. The job never throws. A failure of the notification sink changes
  neither the errors of the passes nor the data they leave: \<open>sendNotification\<close> absorbs it.
  A failed save of a ledger entry is not caught at the entry: the overdue pass ends there with
  an error, and the entries it had not reached are left as they were.
\<close>

theorem job_failure_handling:
  "fst (runPaymentReminderJob env now db) = None
   \<and> (sameRemote env env' \<longrightarrow>
        agree (threePasses env now db) (threePasses env' now db)
        \<and> sameData (snd (runPaymentReminderJob env now db))
             (snd (runPaymentReminderJob env' now db)))
   \<and> (filter (overdueSelected (startOfDay now)) (ledgers db) = pre @ l # post
        \<and> forEach (overdueEntry env now) pre db = (None, db1) \<and> \<not> saveOk env (lid l)
      \<longrightarrow> fst (processOverdueEmis env now db) \<noteq> None
          \<and> ledgers (snd (processOverdueEmis env now db)) = ledgers db1)"
proof (intro conjI impI)
  show "fst (runPaymentReminderJob env now db) = None"
    by (rule runPaymentReminderJob_never_throws)
next
  assume "sameRemote env env'"
  then show "agree (threePasses env now db) (threePasses env' now db)"
    by (rule agree_threePasses)
  then show "sameData (snd (runPaymentReminderJob env now db))
             (snd (runPaymentReminderJob env' now db))"
    by (simp add: runPaymentReminderJob_state agree_def)
next
  assume a: "filter (overdueSelected (startOfDay now)) (ledgers db) = pre @ l # post
        \<and> forEach (overdueEntry env now) pre db = (None, db1) \<and> \<not> saveOk env (lid l)"
  then show "fst (processOverdueEmis env now db) \<noteq> None"
    using processOverdueEmis_save_fails [of now db pre l post env db1] by blast
  from a show "ledgers (snd (processOverdueEmis env now db)) = ledgers db1"
    using processOverdueEmis_save_fails [of now db pre l post env db1] by blast
qed

theorem job_failure_handling_witness:
  "fst (runPaymentReminderJob failingEnv feb7 twoLedgerDB) = None
   \<and> sameRemote okEnv deafEnv
   \<and> sameData (snd (runPaymentReminderJob okEnv feb7 twoLedgerDB))
        (snd (runPaymentReminderJob deafEnv feb7 twoLedgerDB))
   \<and> notifs (snd (runPaymentReminderJob okEnv feb7 twoLedgerDB))
        \<noteq> notifs (snd (runPaymentReminderJob deafEnv feb7 twoLedgerDB))
   \<and> \<not> saveOk failingEnv (lid (pendingLedger 21 11))
   \<and> fst (processOverdueEmis failingEnv feb7 twoLedgerDB) \<noteq> None
   \<and> ledgers (snd (processOverdueEmis failingEnv feb7 twoLedgerDB)) = ledgers twoLedgerDB"
proof -
  have r: "sameRemote okEnv deafEnv"
    by (simp add: sameRemote_def deafEnv_def)
  have f: "\<not> saveOk failingEnv (lid (pendingLedger 21 11))"
    by (simp add: failingEnv_def)
  have s: "filter (overdueSelected (startOfDay feb7)) (ledgers twoLedgerDB)
             = [] @ pendingLedger 21 11 # [pendingLedger 22 12]"
    by (simp add: selected_twoLedgerDB)
  have n: "notifs (snd (runPaymentReminderJob okEnv feb7 twoLedgerDB))
        \<noteq> notifs (snd (runPaymentReminderJob deafEnv feb7 twoLedgerDB))"
    unfolding runPaymentReminderJob_state threePasses_twoLedgerDB ok_run deaf_run
    by (simp add: twoLedgerDB_def)
  show ?thesis
    using job_failure_handling [of failingEnv feb7 twoLedgerDB failingEnv "[]"
        "pendingLedger 21 11" "[pendingLedger 22 12]" twoLedgerDB]
      job_failure_handling [of okEnv feb7 twoLedgerDB deafEnv] r f s n
    by simp
qed

text \<open>
  C7 as stated fails: when the save of the first of two entries fails, the job leaves the
  second entry as it was, pending and without its notification; when every save succeeds,
  the second entry enters its grace period.
\<close>

theorem job_save_failure_counterexample:
  "ledgers (snd (runPaymentReminderJob failingEnv feb7 twoLedgerDB))
     = [pendingLedger 21 11, pendingLedger 22 12]
   \<and> l_status (pendingLedger 22 12) = LPending
   \<and> map l_status (ledgers (snd (runPaymentReminderJob okEnv feb7 twoLedgerDB)))
       = [GracePeriod, GracePeriod]"
  unfolding runPaymentReminderJob_state threePasses_twoLedgerDB ok_run failing_run
  by (simp add: twoLedgerDB_def pushNotification_def)

section \<open>The overdue pass on one entry\<close>

lemma calculatePenalty_keys [simp]:
  "l_dueDate (calculatePenalty now l) = l_dueDate l"
  "gracePeriodDays (calculatePenalty now l) = gracePeriodDays l"
  "l_status (calculatePenalty now l) = l_status l"
  "notifications (calculatePenalty now l) = notifications l"
  "emiApplicationId (calculatePenalty now l) = emiApplicationId l"
  "l_userId (calculatePenalty now l) = l_userId l"
  "missedDate (calculatePenalty now l) = missedDate l"
  "originalAmount (calculatePenalty now l) = originalAmount l"
  "penaltyRate (calculatePenalty now l) = penaltyRate l"
  by (simp_all add: calculatePenalty_def Let_def)

lemma pushNotification_keys [simp]:
  "l_dueDate (pushNotification T now l) = l_dueDate l"
  "gracePeriodDays (pushNotification T now l) = gracePeriodDays l"
  "l_status (pushNotification T now l) = l_status l"
  "isInGracePeriod (pushNotification T now l) = isInGracePeriod l"
  "emiApplicationId (pushNotification T now l) = emiApplicationId l"
  "l_userId (pushNotification T now l) = l_userId l"
  "missedDate (pushNotification T now l) = missedDate l"
  "daysOverdue (pushNotification T now l) = daysOverdue l"
  "penaltyAmount (pushNotification T now l) = penaltyAmount l"
  "totalPayable (pushNotification T now l) = totalPayable l"
  "originalAmount (pushNotification T now l) = originalAmount l"
  "penaltyRate (pushNotification T now l) = penaltyRate l"
  by (simp_all add: pushNotification_def)

lemma hasNotification_pushNotification [simp]:
  "hasNotification T (pushNotification T' now l) = (T = T' \<or> hasNotification T l)"
  by (auto simp: hasNotification_def pushNotification_def)

lemma hasNotification_calculatePenalty [simp]:
  "hasNotification T (calculatePenalty now l) = hasNotification T l"
  by (simp add: hasNotification_def)

lemma hasNotification_status [simp]:
  "hasNotification T (l\<lparr>l_status := s\<rparr>) = hasNotification T l"
  by (simp add: hasNotification_def)

text \<open>The penalty once the grace period is over, and before.\<close>

lemma calculatePenalty_after:
  assumes "l_status l \<noteq> Paid" and "l_status l \<noteq> Waived"
    and "addDays (l_dueDate l) (gracePeriodDays l) < now"
  shows "isInGracePeriod (calculatePenalty now l) = False"
    and "daysOverdue (calculatePenalty now l)
           = (now - addDays (l_dueDate l) (gracePeriodDays l)) div msPerDay"
    and "totalPayable (calculatePenalty now l)
           = Some (originalAmount l + penaltyAmount (calculatePenalty now l))"
    and "penaltyAmount (calculatePenalty now l)
           = Math_round (originalAmount l * (penaltyRate l / 100)
               * of_int ((now - addDays (l_dueDate l) (gracePeriodDays l)) div msPerDay))"
  using assms by (simp_all add: calculatePenalty_def Let_def)



text \<open>The body of the loop stores \<open>overdueLedger\<close> when nothing fails.\<close>

lemma overdueEntry_ok:
  assumes "saveOk env (lid l)"
    and "emiApplicationId l \<in> aid ` set (applications db) \<longrightarrow> updateOk env (emiApplicationId l)"
    and "\<not> graceEndThrows now l"
  shows "fst (overdueEntry env now l db) = None"
    and "ledgers (snd (overdueEntry env now l db)) = saveLedger (overdueLedger now l) (ledgers db)"
proof -
  have d1: "lid (dayOneLedger now l) = lid l"
    "emiApplicationId (dayOneLedger now l) = emiApplicationId l"
    by (simp_all add: dayOneLedger_def)
  have s: "saveOverdue env now l' db' =
      (None, db'\<lparr>ledgers := saveLedger (if \<not> isInGracePeriod l' then calculatePenalty now l' else l')
                (ledgers db')\<rparr>)" if "lid l' = lid l" for l' db'
    using assms(1) that by (simp add: saveOverdue_def saveLedgerIn_def)
  have both: "fst (overdueEntry env now l db) = None
    \<and> ledgers (snd (overdueEntry env now l db)) = saveLedger (overdueLedger now l) (ledgers db)"
  proof (cases "3 \<le> daysSinceDue now l \<and> isInGracePeriod (dayOneLedger now l)")
    case False
    then show ?thesis
      by (auto simp: overdueEntry_def overdueLedger_def dayOneLedger_def daysSinceDue_def
          Let_def s)
  next
    case True
    then obtain p where p: "totalPayable (graceEndedLedger now (dayOneLedger now l)) = Some p"
      using assms(3) by (auto simp: graceEndThrows_def)
    have n1: "daysSinceDue now l \<noteq> 1" using True by simp
    have d: "dayOneLedger now l = l" using n1 by (simp add: dayOneLedger_def)
    have lidg: "lid (graceEndedLedger now l) = lid l"
      "emiApplicationId (graceEndedLedger now l) = emiApplicationId l"
      by (simp_all add: graceEndedLedger_def)
    show ?thesis
      using True p n1 assms(2)
      unfolding d
      by (auto simp: overdueEntry_def overdueLedger_def dayOneLedger_def
          graceEnded_def Let_def s lidg graceEndedLedger_def [symmetric]
          daysSinceDue_def [symmetric])
  qed
  from both show "fst (overdueEntry env now l db) = None" by simp
  from both show "ledgers (snd (overdueEntry env now l db))
      = saveLedger (overdueLedger now l) (ledgers db)" by simp
qed

lemma lid_overdueLedger [simp]: "lid (overdueLedger now l) = lid l"
  by (simp add: overdueLedger_def dayOneLedger_def graceEndedLedger_def Let_def)

lemma saveLedger_single: "lid x = lid e \<Longrightarrow> saveLedger x [e] = [x]"
  by (simp add: saveLedger_def)

lemma processOverdueEmis_single:
  assumes "ledgers db = [e]" and "saveOk env (lid e)" and "\<forall>i. updateOk env i"
    and "\<not> graceEndThrows now e"
  shows "fst (processOverdueEmis env now db) = None"
    and "ledgers (snd (processOverdueEmis env now db))
           = [if overdueSelected (startOfDay now) e then overdueLedger now e else e]"
proof -
  have u: "emiApplicationId e \<in> aid ` set (applications db) \<longrightarrow> updateOk env (emiApplicationId e)"
    using assms(3) by simp
  note ok = overdueEntry_ok [OF assms(2) u assms(4)]
  show "fst (processOverdueEmis env now db) = None"
    using ok(1) by (cases "overdueEntry env now e db")
      (auto simp: processOverdueEmis_def Let_def assms(1))
  show "ledgers (snd (processOverdueEmis env now db))
           = [if overdueSelected (startOfDay now) e then overdueLedger now e else e]"
    using ok by (cases "overdueEntry env now e db")
      (auto simp: processOverdueEmis_def Let_def assms(1) saveLedger_single)
qed




lemma overdueLedger_accrue:
  assumes "\<not> isInGracePeriod l" and "daysSinceDue now l \<noteq> 1 \<or> hasNotification Overdue1Day l"
  shows "overdueLedger now l = calculatePenalty now l"
  using assms by (auto simp: overdueLedger_def dayOneLedger_def Let_def)




lemma overdueRuns_Nil [simp]: "overdueRuns env [] db = db"
  by (simp add: overdueRuns_def)

lemma overdueRuns_snoc:
  "overdueRuns env (nows @ [now]) db = snd (processOverdueEmis env now (overdueRuns env nows db))"
  by (simp add: overdueRuns_def)




lemma feb5_10h: "civil 2025 2 5 (hours 10) = 20124 * msPerDay + 36000000"
  by (simp add: feb_days MakeDate_def hours_def)


lemma pendingLedger_more [simp]:
  "gracePeriodDays (pendingLedger i a) = 3" "penaltyAmount (pendingLedger i a) = 0"
  by (simp_all add: pendingLedger_def)

lemma okEnv_simps [simp]: "saveOk okEnv i" "updateOk okEnv i" "sinkOk okEnv u T"
  by (simp_all add: okEnv_def)


lemma midnightLedger_simps [simp]:
  "l_dueDate midnightLedger = civil 2025 2 5 0" "gracePeriodDays midnightLedger = 3"
  "l_status midnightLedger = LPending" "isInGracePeriod midnightLedger"
  "notifications midnightLedger = []" "penaltyAmount midnightLedger = 0"
  by (simp_all add: midnightLedger_def pendingLedger_def)


section \<open>Running a pass twice\<close>








lemma find_append: "find Q (xs @ ys) = (case find Q xs of Some w \<Rightarrow> Some w | None \<Rightarrow> find Q ys)"
  by (induction xs) auto

lemma find_saveLedger_new:
  assumes "lid l' \<notin> lid ` set ls"
  shows "find Q (saveLedger l' ls) = (case find Q ls of Some w \<Rightarrow> Some w
            | None \<Rightarrow> if Q l' then Some l' else None)"
  using assms by (simp add: saveLedger_def find_append split: option.splits)

subsection \<open>The upcoming pass\<close>

lemma find_NoneD: "find P xs = None \<Longrightarrow> x \<in> set xs \<Longrightarrow> \<not> P x"
  by (auto simp: find_None_iff)




lemma newLedger_simps [simp]:
  "lid (newLedger i emi due) = i" "ledgerFor emi due (newLedger i emi due)"
  by (simp_all add: newLedger_def ledgerFor_def)

lemma ledgerFor_pushNotification [simp]:
  "ledgerFor emi due (pushNotification T now l) = ledgerFor emi due l"
  by (simp add: ledgerFor_def)

lemma saveLedgerIn_cases:
  "saveLedgerIn env l db = (None, db\<lparr>ledgers := saveLedger l (ledgers db)\<rparr>)
     \<or> saveLedgerIn env l db = (Some SaveError, db)"
  by (simp add: saveLedgerIn_def)


text \<open>Processing an application keeps the records of every application.\<close>

lemma hasNotification_mono [simp]:
  "hasNotification T l \<Longrightarrow> hasNotification T (pushNotification T' now l)"
  by simp





subsection \<open>The due-today pass\<close>


lemma sendNotification_notifs:
  "notifs (sendNotification env u T db) = notifs db @ (if sinkOk env u T then [(u, T)] else [])"
  by (simp add: sendNotification_def)






subsection \<open>The overdue pass\<close>










subsection \<open>The examples\<close>


lemma activeApplication_simps [simp]:
  "a_status activeApplication = Active" "aid activeApplication = 11"
  "a_userId activeApplication = 7"
  "nextDueDate activeApplication = Some (civil 2025 2 5 (hours 10))"
  using dueDates_jan10(1) [of 1000]
  by (simp_all add: activeApplication_def exampleApplication_def)











section \<open>The counters and the next due date\<close>

lemma appInv_status [simp]: "appInv (a\<lparr>a_status := s\<rparr>) = appInv a"
  by (simp add: appInv_def)



lemma dbInv_sendNotification [simp]:
  "dbInv (sendNotification env uid T db) = dbInv db"
  by (simp add: dbInv_def)













section \<open>A payment and the penalty that still accrues\<close>

lemma exampleLedger_simps [simp]:
  "lid exampleLedger = 21" "l_status exampleLedger = Overdue"
  "\<not> isInGracePeriod exampleLedger" "gracePeriodDays exampleLedger = 3"
  "l_dueDate exampleLedger = civil 2025 2 5 (hours 10)"
  "originalAmount exampleLedger = 1000" "penaltyRate exampleLedger = 1 / 10"
  "penaltyAmount exampleLedger = 2"
  using dueDates_jan10(1) [of 1000]
  by (simp_all add: exampleLedger_def)

lemma feb12_val: "feb12 = 20131 * msPerDay + 12600000"
  by (simp add: feb12_def civil_def MakeDay_def MakeDate_def DayFromYear_2025 leap_2025
      daysBeforeMonth_def hours_def)

lemma accrual_after_payment:
  "map penaltyAmount (ledgers (snd (processOverdueEmis okEnv feb12 paidDB))) = [3]"
proof -
  have l: "ledgers paidDB = [exampleLedger]"
    by (simp add: paidDB_def overdueDB_def)
  have n: "daysSinceDue feb12 exampleLedger = 6"
    by (simp add: daysSinceDue_def feb12_val feb5_10h startOfDay_def msPerDay_val)
  have sel: "overdueSelected (startOfDay feb12) exampleLedger"
    by (simp add: overdueSelected_def feb12_val feb5_10h startOfDay_def msPerDay_val)
  have nt: "\<not> graceEndThrows feb12 exampleLedger"
    by (simp add: graceEndThrows_def dayOneLedger_def n)
  have o: "overdueLedger feb12 exampleLedger = calculatePenalty feb12 exampleLedger"
    by (intro overdueLedger_accrue) (simp_all add: n)
  have a: "addDays (l_dueDate exampleLedger) (gracePeriodDays exampleLedger) < feb12"
    by (simp add: addDays_def feb12_val feb5_10h msPerDay_val)
  have d: "(feb12 - addDays (l_dueDate exampleLedger) (gracePeriodDays exampleLedger)) div msPerDay = 3"
    by (simp add: addDays_def feb12_val feb5_10h msPerDay_val)
  have "\<lfloor>(7::rat) / 2\<rfloor> = 3" by (simp add: floor_unique)
  then have r: "Math_round 3 = 3"
    by (simp add: Math_round_def)
  have "penaltyAmount (calculatePenalty feb12 exampleLedger)
          = Math_round (originalAmount exampleLedger * (penaltyRate exampleLedger / 100)
              * of_int ((feb12 - addDays (l_dueDate exampleLedger) (gracePeriodDays exampleLedger))
                  div msPerDay))"
    by (rule calculatePenalty_after(4) [OF _ _ a]) simp_all
  then have "penaltyAmount (calculatePenalty feb12 exampleLedger) = 3"
    unfolding d by (simp add: r)
  then show ?thesis
    using processOverdueEmis_single(2) [OF l _ _ nt, of okEnv] sel
    by (simp add: o)
qed

text \<open>
  C1 as stated fails: the first installment of the example application has an overdue entry
  with a penalty of 2; the payment is accepted, and the entry is still overdue, with no paid
  amount, paid date or payment reference; the overdue pass of two days later raises its
  penalty to 3.
\<close>

theorem payInstallment_ledger_counterexample:
  "fst (payInstallment feb10 7 11 1 (Some ''txn-1'') (Some ''upi'') overdueDB) = 200
   \<and> snd (payInstallment feb10 7 11 1 (Some ''txn-1'') (Some ''upi'') overdueDB) = paidDB
   \<and> ledgers overdueDB = [exampleLedger]
   \<and> emiApplicationId exampleLedger = 11 \<and> installmentNo exampleLedger = 1
   \<and> l_status exampleLedger = Overdue \<and> penaltyAmount exampleLedger = 2
   \<and> ledgers paidDB = [exampleLedger]
   \<and> paidAmount exampleLedger = None \<and> l_paidDate exampleLedger = None
   \<and> paymentReference exampleLedger = None
   \<and> map penaltyAmount (ledgers (snd (processOverdueEmis okEnv feb12 paidDB))) = [3]"
  unfolding payInstallment_example accrual_after_payment
  by (simp add: paidDB_def overdueDB_def exampleLedger_def)

end
